theory Spec2Isabelle
  imports Complex_Main "HOL-Library.AList" "HOL-Library.Log_Nat"
begin

section \<open>Python values and exceptions\<close>

text \<open>
  The dashboard (\<open>app.py\<close>) and the preprocessing script (\<open>process-data.py\<close>) are
  Python programs over pandas frames. Python integers are modelled as \<open>int\<close>, counts
  (\<open>len\<close>) as \<open>nat\<close>, and a floating-point number as the \<open>real\<close> it stands for. Where
  the code rounds a quotient (the proportions of the threshold table, Python's
  \<open>round\<close>), every operation rounds its exact result to the nearest double (\<open>fl\<close>
  below); the sums of the rolling means and the comparisons are exact. A cell of a
  float column is a \<open>real option\<close>, \<open>None\<close> standing for pandas' missing value \<open>NaN\<close>.
  Every exception the modelled code can raise is a value of \<open>py_error\<close>, and a
  function that can raise returns \<open>py_error + 'a\<close>.
\<close>

datatype py_error =
    IndexError
  | ValueError
  | SilentException
  | FileNotFoundError
  | ApiError

type_synonym reading = "real option"

text \<open>
  Rounding to the nearest integer, ties to the even neighbour (\<open>numpy.rint\<close>).
\<close>

definition rint :: "real \<Rightarrow> int" where
  "rint x =
     (let f = \<lfloor>x\<rfloor>; d = x - of_int f
      in if d < 1 / 2 then f
         else if 1 / 2 < d then f + 1
         else if even f then f else f + 1)"

text \<open>
  Doubles (IEEE 754 binary64) have 53 significant bits. \<open>expo x\<close> is the exponent of
  a positive \<open>x\<close>, the \<open>e\<close> with \<open>2 ^ e \<le> x < 2 ^ (e + 1)\<close>; \<open>fl x\<close> is the double
  nearest to \<open>x\<close>, ties to the even significand. The exponent range is not bounded
  here: the quotients, products and coordinates of this program are far from overflow
  and from the subnormal numbers.
\<close>

definition expo :: "real \<Rightarrow> int" where
  "expo x = (if 1 \<le> x then bitlen \<lfloor>x\<rfloor> - 1 else - bitlen (\<lceil>1 / x\<rceil> - 1))"

definition fl :: "real \<Rightarrow> real" where
  "fl x =
     (if x = 0 then 0
      else of_int (rint (x * 2 powi (52 - expo \<bar>x\<bar>))) * 2 powi (expo \<bar>x\<bar> - 52))"

text \<open>
  Python's \<open>round(x, n)\<close> on a float: the exact value of \<open>x\<close> is rounded to \<open>n\<close>
  decimals, ties to even, and the result is the double nearest to that decimal.
\<close>

definition py_round :: "real \<Rightarrow> nat \<Rightarrow> real" where
  "py_round x n = fl (of_int (rint (x * 10 ^ n)) / 10 ^ n)"

section \<open>The sliders and the unit switch\<close>

text \<open>
  A slider widget holds its value and its bounds. \<open>ui.update_slider\<close> overwrites the
  fields it is given and leaves the others as they are.
\<close>

record 'v slider =
  slider_value :: 'v
  slider_min :: int
  slider_max :: int

definition update_slider ::
  "'v slider \<Rightarrow> 'v option \<Rightarrow> int option \<Rightarrow> int option \<Rightarrow> 'v slider" where
  "update_slider w v lo hi =
     w\<lparr>slider_value := (case v of None \<Rightarrow> slider_value w | Some x \<Rightarrow> x),
       slider_min := (case lo of None \<Rightarrow> slider_min w | Some x \<Rightarrow> x),
       slider_max := (case hi of None \<Rightarrow> slider_max w | Some x \<Rightarrow> x)\<rparr>"

record sliders =
  plotTemp_slider :: "int slider"
  tableTemp_slider :: "(int \<times> int) slider"

text \<open>
  \<open>updateslider\<close> (app.py, lines 152-159): the effect that runs when \<open>input.tempunits()\<close>
  changes. Every argument tests \<open>input.tempunits() == "fahrenheit"\<close>.
\<close>

definition updateslider :: "string \<Rightarrow> sliders \<Rightarrow> sliders" where
  "updateslider tempunits_in ws =
     ws\<lparr>plotTemp_slider :=
          update_slider (plotTemp_slider ws)
            (Some (if tempunits_in = ''fahrenheit'' then 5 else -15))
            (Some (if tempunits_in = ''fahrenheit'' then -15 else -25))
            (Some (if tempunits_in = ''fahrenheit'' then 50 else 10)),
        tableTemp_slider :=
          update_slider (tableTemp_slider ws)
            (Some (if tempunits_in = ''fahrenheit'' then (0, 15) else (-20, -10)))
            (Some (if tempunits_in = ''fahrenheit'' then -25 else -30))
            (Some (if tempunits_in = ''fahrenheit'' then 60 else 15))\<rparr>"

section \<open>The preprocessing script\<close>

text \<open>
  \<open>process-data.py\<close> reads the raw city table, keeps some rows, adds a column, keeps
  three columns and writes them with \<open>to_csv(..., index=False)\<close>. A row of the raw
  table holds the five columns the script touches (the raw table's \<open>lat\<close> and \<open>lng\<close>
  are \<open>lat_raw\<close> and \<open>lng_raw\<close> here); its other columns are dropped by the selection.
\<close>

record raw_city =
  city :: string
  state_name :: string
  population :: int
  lat_raw :: real
  lng_raw :: real

text \<open>The raw table after line 9: every row has the new column \<open>city_state\<close> as well.\<close>

record labelled_city = raw_city +
  city_state_new :: string

record catalog_row =
  city_state :: string
  lat :: real
  lng :: real

text \<open>
  A written table: the names of its columns, in order, and its rows. The first line of
  the file is the column names joined by commas; how the numbers of a row are printed
  is outside the model.
\<close>

record csv_file =
  columns :: "string list"
  body :: "catalog_row list"

fun join_commas :: "string list \<Rightarrow> string" where
  "join_commas [] = []"
| "join_commas [c] = c"
| "join_commas (c # d # cs) = c @ '','' @ join_commas (d # cs)"

definition header_line :: "csv_file \<Rightarrow> string" where
  "header_line f = join_commas (columns f)"

text \<open>Line 6: \<open>df = df[df["population"] >= 10000]\<close>.\<close>

definition keep_populous :: "raw_city list \<Rightarrow> raw_city list" where
  "keep_populous df0 = filter (\<lambda>r. 10000 \<le> population r) df0"

text \<open>Line 9: \<open>df["city_state"] = df["city"] + ', ' + df["state_name"]\<close>.\<close>

definition add_city_state :: "raw_city list \<Rightarrow> labelled_city list" where
  "add_city_state df0 =
     map (\<lambda>r. raw_city.extend r
            (labelled_city.fields (city r @ '', '' @ state_name r))) df0"

text \<open>Line 12: \<open>df = df[["city_state", "lat", "lng"]]\<close>.\<close>

definition select_columns :: "labelled_city list \<Rightarrow> csv_file" where
  "select_columns df0 =
     \<lparr>columns = [''city_state'', ''lat'', ''lng''],
      body = map (\<lambda>r. \<lparr>city_state = city_state_new r, lat = lat_raw r, lng = lng_raw r\<rparr>) df0\<rparr>"

text \<open>The whole script: the value is the file written to \<open>data/cities.csv\<close>.\<close>

definition process_data :: "raw_city list \<Rightarrow> csv_file" where
  "process_data df0 = select_columns (add_city_state (keep_populous df0))"

section \<open>Loading the dashboard module\<close>

text \<open>
  Lines 17-20 of \<open>app.py\<close> run when the module is imported. \<open>pd.read_csv\<close> either
  raises or gives the catalog frame; its outcome is the argument. \<open>unique()\<close> keeps the
  first occurrence of every label, in order. \<open>tolist()[0]\<close> raises \<open>IndexError\<close> on
  the empty list.
\<close>

record module_globals =
  df :: "catalog_row list"
  cities :: "string list"
  lat_default :: real

fun unique :: "'a list \<Rightarrow> 'a list" where
  "unique [] = []"
| "unique (x # xs) = x # filter (\<lambda>y. y \<noteq> x) (unique xs)"

definition first_item :: "'a list \<Rightarrow> py_error + 'a" where
  "first_item xs = (case xs of [] \<Rightarrow> Inl IndexError | x # _ \<Rightarrow> Inr x)"

definition module_load :: "py_error + catalog_row list \<Rightarrow> py_error + module_globals" where
  "module_load read_csv =
     (case read_csv of
        Inl e \<Rightarrow> Inl e
      | Inr frame \<Rightarrow>
          (case first_item (map lat (filter (\<lambda>r. city_state r = ''Urbana, Illinois'') frame)) of
             Inl e \<Rightarrow> Inl e
           | Inr v \<Rightarrow> Inr \<lparr>df = frame, cities = unique (map city_state frame), lat_default = v\<rparr>))"

section \<open>Inputs, the request and the response\<close>

text \<open>
  The user's inputs, as the server function reads them: \<open>input.city()\<close>,
  \<open>input.daterange()\<close> (a pair of dates, here day numbers), \<open>input.tempunits()\<close>,
  \<open>input.plotTemp()\<close>, \<open>input.plotOptions()\<close> and \<open>input.tableTemp()\<close> (low, high).
\<close>

type_synonym date = int

record inputs =
  input_city :: string
  input_daterange :: "date \<times> date"
  input_tempunits :: string
  input_plotTemp :: int
  input_plotOptions :: "string list"
  input_tableTemp :: "int \<times> int"

datatype input_id = City | Daterange | Tempunits | PlotTemp | PlotOptions | TableTemp

record params =
  latitude :: real
  longitude :: real
  start_date :: date
  end_date :: date
  daily :: string
  temperature_unit :: string

text \<open>
  What the code reads of a response: the coordinate the service resolved, and of
  \<open>response.Daily()\<close> the start, the end and the step of its time axis (seconds) and
  the values of its first variable.
\<close>

record response =
  Latitude :: real
  Longitude :: real
  Time :: int
  TimeEnd :: int
  Interval :: int
  ValuesAsNumpy :: "reading list"

type_synonym weather_api = "string \<Rightarrow> params \<Rightarrow> py_error + response list"

definition url :: string where
  "url = ''https://archive-api.open-meteo.com/v1/archive''"

text \<open>
  \<open>apiresponse\<close> (lines 89-123) up to the request: the inputs it reads, in the order
  it reads them, and the parameters it builds. \<open>req(input.city())\<close> raises the silent
  exception on an empty selection; the two catalog lookups raise \<open>IndexError\<close> when no
  row has the label.
\<close>

definition apiresponse_params ::
  "catalog_row list \<Rightarrow> inputs \<Rightarrow> input_id list \<times> (py_error + params)" where
  "apiresponse_params frame i =
     (let start = fst (input_daterange i);
          stop = snd (input_daterange i)
      in if input_city i = [] then ([Daterange, Daterange, City], Inl SilentException)
         else
           (case first_item (map lat (filter (\<lambda>r. city_state r = input_city i) frame)) of
              Inl e \<Rightarrow> ([Daterange, Daterange, City, City], Inl e)
            | Inr la \<Rightarrow>
                (case first_item (map lng (filter (\<lambda>r. city_state r = input_city i) frame)) of
                   Inl e \<Rightarrow> ([Daterange, Daterange, City, City, City], Inl e)
                 | Inr lo \<Rightarrow>
                     ([Daterange, Daterange, City, City, City, Tempunits],
                      Inr \<lparr>latitude = la, longitude = lo, start_date = start, end_date = stop,
                           daily = ''temperature_2m_min'',
                           temperature_unit = input_tempunits i\<rparr>))))"

text \<open>
  The whole of \<open>apiresponse\<close>: the inputs read, the number of calls of
  \<open>openmeteo.weather_api\<close> (one when the request was built, none otherwise) and the
  outcome, the first response of the list the service returns. The service is a
  parameter of the model; it can raise.
\<close>

definition apiresponse ::
  "weather_api \<Rightarrow> catalog_row list \<Rightarrow> inputs \<Rightarrow> input_id list \<times> nat \<times> (py_error + response)" where
  "apiresponse api frame i =
     (case apiresponse_params frame i of
        (reads, Inl e) \<Rightarrow> (reads, 0, Inl e)
      | (reads, Inr p) \<Rightarrow>
          (reads, 1, (case api url p of Inl e \<Rightarrow> Inl e | Inr responses \<Rightarrow> first_item responses)))"

section \<open>The frame of daily minima\<close>

text \<open>
  The frame \<open>filter_df\<close> builds has the columns \<open>date\<close> and \<open>temperature_2m_min\<close>,
  a row per day; \<open>plot\<close> later sets further float columns on it, kept here under their
  names in the order they were added.
\<close>

record hourly_row =
  date :: int
  temperature_2m_min :: reading

record hourly_dataframe =
  rows :: "hourly_row list"
  derived :: "(string \<times> reading list) list"

definition len :: "hourly_dataframe \<Rightarrow> nat" where
  "len frame = length (rows frame)"

text \<open>
  \<open>pd.date_range(start, end, freq, inclusive="left")\<close> for a positive step: the
  instants \<open>start + k * freq\<close> that lie before \<open>end\<close>.
\<close>

definition date_range_left :: "int \<Rightarrow> int \<Rightarrow> int \<Rightarrow> int list" where
  "date_range_left start stop freq =
     map (\<lambda>k. start + int k * freq) [0 ..< nat ((stop - start + freq - 1) div freq)]"

text \<open>
  \<open>filter_df\<close> (lines 126-144). The service sends a positive step (86400 for daily
  data); pandas rejects a step of zero, and the model rejects every step that is not
  positive. \<open>pd.DataFrame\<close> raises \<open>ValueError\<close> when the two columns differ in length.
\<close>

definition filter_df :: "response \<Rightarrow> py_error + hourly_dataframe" where
  "filter_df r =
     (if Interval r \<le> 0 then Inl ValueError
      else
        (let dates = date_range_left (Time r) (TimeEnd r) (Interval r);
             hourly_temperature_2m = ValuesAsNumpy r
         in if length dates \<noteq> length hourly_temperature_2m then Inl ValueError
            else Inr \<lparr>rows = map (\<lambda>(d, v). \<lparr>date = d, temperature_2m_min = v\<rparr>)
                               (zip dates hourly_temperature_2m),
                      derived = []\<rparr>))"

text \<open>
  Comparing a float column with an integer gives a boolean mask; a missing value
  compares false either way. \<open>frame[mask]\<close> keeps the rows where the mask holds, in
  every column.
\<close>

definition reading_lt :: "reading \<Rightarrow> int \<Rightarrow> bool" where
  "reading_lt v t = (case v of None \<Rightarrow> False | Some x \<Rightarrow> x < of_int t)"

definition reading_ge :: "reading \<Rightarrow> int \<Rightarrow> bool" where
  "reading_ge v t = (case v of None \<Rightarrow> False | Some x \<Rightarrow> of_int t \<le> x)"

definition masked :: "bool list \<Rightarrow> 'a list \<Rightarrow> 'a list" where
  "masked keep xs = map snd (filter fst (zip keep xs))"

definition select_rows :: "bool list \<Rightarrow> hourly_dataframe \<Rightarrow> hourly_dataframe" where
  "select_rows keep frame =
     \<lparr>rows = masked keep (rows frame),
      derived = map (\<lambda>(name, col). (name, masked keep col)) (derived frame)\<rparr>"

section \<open>Coordinate text and map\<close>

text \<open>
  \<open>text\<close> (lines 147-150) formats two rounded numbers between fixed pieces of text;
  the pieces are kept apart, how a number prints is outside the model. The degree sign
  is its two bytes in UTF-8.
\<close>

datatype piece = Number real | Literal string

definition degree :: string where
  "degree = [char_of (194::nat), char_of (176::nat)]"

definition text_out :: "response \<Rightarrow> piece list" where
  "text_out r =
     [Number (py_round (Latitude r) 4), Literal (degree @ ''N, ''),
      Number (py_round (Longitude r) 4), Literal (degree @ ''E'')]"

record map_widget =
  center :: "real \<times> real"
  zoom :: nat
  markers :: "(real \<times> real) list"

text \<open>\<open>map\<close> (lines 162-169).\<close>

definition map_out :: "response \<Rightarrow> map_widget" where
  "map_out r =
     (let la = Latitude r; lo = Longitude r
      in \<lparr>center = (la, lo), zoom = 12, markers = [(la, lo)]\<rparr>)"

section \<open>The threshold table\<close>

text \<open>
  The result of a numpy division: a number, or \<open>nan\<close> (0 / 0), or \<open>inf\<close>. Dividing an
  integer column by a Python integer converts both to doubles and divides them.
  \<open>numpy.round(x, n)\<close> multiplies by the power of ten, rounds to the nearest integer
  and divides again, each step in doubles.
\<close>

datatype np_float = Num real | NaN | Inf

definition np_truediv :: "nat \<Rightarrow> nat \<Rightarrow> np_float" where
  "np_truediv a n =
     (if fl (real n) = 0 then (if fl (real a) = 0 then NaN else Inf)
      else Num (fl (fl (real a) / fl (real n))))"

definition np_round :: "np_float \<Rightarrow> nat \<Rightarrow> np_float" where
  "np_round q n =
     (case q of
        Num x \<Rightarrow> Num (fl (of_int (rint (fl (x * 10 ^ n))) / 10 ^ n))
      | NaN \<Rightarrow> NaN
      | Inf \<Rightarrow> Inf)"

text \<open>
  The integer that \<open>round(d / n, 3)\<close> reaches between its multiplication and its
  division: the number of thousandths.
\<close>

definition thousandths :: "nat \<Rightarrow> nat \<Rightarrow> int" where
  "thousandths d n = rint (fl (fl (fl (real d) / fl (real n)) * 1000))"

text \<open>\<open>np.arange(start, stop, -1)\<close> on integers: from \<open>start\<close> down, \<open>stop\<close> excluded.\<close>

function np_arange_down :: "int \<Rightarrow> int \<Rightarrow> int list" where
  "np_arange_down start stop =
     (if stop < start then start # np_arange_down (start - 1) stop else [])"
  by pat_completeness auto
termination
  by (relation "measure (\<lambda>(start, stop). nat (start - stop))") auto

record summary_table =
  Temp :: "int list"
  Days_Below :: "nat list"
  Proportion_Below :: "np_float list"

text \<open>The loop of lines 181-183: \<open>tmp\<close> grows by one count per temperature.\<close>

fun days_below_loop :: "hourly_dataframe \<Rightarrow> int list \<Rightarrow> nat list \<Rightarrow> nat list" where
  "days_below_loop histdf [] tmp = tmp"
| "days_below_loop histdf (i # vallist) tmp =
     days_below_loop histdf vallist
       (tmp @ [len (select_rows
                      (map (\<lambda>r. reading_lt (temperature_2m_min r) i) (rows histdf)) histdf)])"

text \<open>\<open>hist_table\<close> (lines 173-188), given \<open>input.tableTemp()\<close> and the frame.\<close>

definition hist_table :: "int \<times> int \<Rightarrow> hourly_dataframe \<Rightarrow> summary_table" where
  "hist_table tableTemp histdf =
     (let vallist = np_arange_down (snd tableTemp) (fst tableTemp - 1);
          tmp = days_below_loop histdf vallist []
      in \<lparr>Temp = vallist, Days_Below = tmp,
          Proportion_Below = map (\<lambda>d. np_round (np_truediv d (len histdf)) 3) tmp\<rparr>)"

section \<open>Rolling averages and the plot\<close>

text \<open>
  \<open>Series.rolling(window=w).mean()\<close> with its defaults: a trailing window of \<open>w\<close>
  rows that needs \<open>w\<close> observations. pandas keeps a running sum and a count of the
  observations in the window: the value entering the window is added, the value
  leaving it is removed, a missing value is skipped on both sides, and the result is
  missing unless the count reaches \<open>w\<close>. (Its guard against a rounding error of the
  wrong sign changes nothing in exact arithmetic and is left out.)
\<close>

record roll_state =
  nobs :: nat
  sum_x :: real

definition add_mean :: "reading \<Rightarrow> roll_state \<Rightarrow> roll_state" where
  "add_mean v st =
     (case v of None \<Rightarrow> st | Some x \<Rightarrow> \<lparr>nobs = nobs st + 1, sum_x = sum_x st + x\<rparr>)"

definition remove_mean :: "reading \<Rightarrow> roll_state \<Rightarrow> roll_state" where
  "remove_mean v st =
     (case v of None \<Rightarrow> st | Some x \<Rightarrow> \<lparr>nobs = nobs st - 1, sum_x = sum_x st - x\<rparr>)"

definition calc_mean :: "nat \<Rightarrow> roll_state \<Rightarrow> reading" where
  "calc_mean minp st =
     (if minp \<le> nobs st \<and> 0 < nobs st then Some (sum_x st / real (nobs st)) else None)"

text \<open>
  The loop over the rows: \<open>i\<close> is the row, \<open>st\<close> the state of the window that ended
  before it, the last argument the number of rows left. Row \<open>i - w\<close> leaves the window
  when \<open>w \<le> i\<close>; row \<open>i\<close> enters it.
\<close>

fun roll_mean_loop :: "nat \<Rightarrow> reading list \<Rightarrow> nat \<Rightarrow> roll_state \<Rightarrow> nat \<Rightarrow> reading list" where
  "roll_mean_loop w xs i st 0 = []"
| "roll_mean_loop w xs i st (Suc n) =
     (let st1 = (if w \<le> i then remove_mean (xs ! (i - w)) st else st);
          st2 = add_mean (xs ! i) st1
      in calc_mean w st2 # roll_mean_loop w xs (Suc i) st2 n)"

definition roll_mean :: "nat \<Rightarrow> reading list \<Rightarrow> reading list" where
  "roll_mean w xs = roll_mean_loop w xs 0 \<lparr>nobs = 0, sum_x = 0\<rparr> (length xs)"

text \<open>
  The rows \<open>i - w + 1\<close> to \<open>i\<close> of a column (from row 0 when there are fewer), the
  number of values present in a window and their sum.
\<close>

definition window :: "nat \<Rightarrow> reading list \<Rightarrow> nat \<Rightarrow> reading list" where
  "window w xs i = map (\<lambda>k. xs ! k) [Suc i - w ..< Suc i]"

definition observed :: "reading list \<Rightarrow> nat" where
  "observed ws = length (filter (\<lambda>v. v \<noteq> None) ws)"

definition total :: "reading list \<Rightarrow> real" where
  "total ws = sum_list (map (\<lambda>v. case v of None \<Rightarrow> 0 | Some x \<Rightarrow> x) ws)"

text \<open>
  The state of the loop tracks a window when it holds the window's count and sum;
  \<open>mean_at\<close> is what \<open>calc_mean\<close> gives for the state that tracks the window at row \<open>i\<close>.
\<close>

definition tracks :: "roll_state \<Rightarrow> reading list \<Rightarrow> bool" where
  "tracks st ws = (nobs st = observed ws \<and> sum_x st = total ws)"

definition mean_at :: "nat \<Rightarrow> reading list \<Rightarrow> nat \<Rightarrow> reading" where
  "mean_at w xs i =
     (if w \<le> observed (window w xs i) \<and> 0 < observed (window w xs i)
      then Some (total (window w xs i) / real (observed (window w xs i))) else None)"

text \<open>
  The arithmetic mean of a window, in the words of the specification: the sum of the
  values over their number; it is missing when a value of the window is.
\<close>

definition arithmetic_mean :: "reading list \<Rightarrow> reading" where
  "arithmetic_mean ws =
     (if list_all (\<lambda>v. v \<noteq> None) ws \<and> ws \<noteq> []
      then Some (total ws / real (length ws))
      else None)"

text \<open>
  \<open>frame[name] = column\<close> replaces the column of that name or adds it after the
  others. It changes the frame object itself.
\<close>

definition setitem :: "hourly_dataframe \<Rightarrow> string \<Rightarrow> reading list \<Rightarrow> hourly_dataframe" where
  "setitem frame name col = frame\<lparr>derived := AList.update name col (derived frame)\<rparr>"

text \<open>
  What \<open>plot\<close> draws: the horizontal line, the black and the light gray points, the
  orange and the blue line (when their option is ticked) and the label of the y axis.
\<close>

record figure =
  axhline :: int
  scatter_black :: "hourly_row list"
  scatter_lightgray :: "hourly_row list"
  line_orange :: "(int \<times> reading) list option"
  line_blue :: "(int \<times> reading) list option"
  ylabel :: string

definition lineplot :: "hourly_dataframe \<Rightarrow> string \<Rightarrow> (int \<times> reading) list option" where
  "lineplot frame name =
     map_option (zip (map date (rows frame))) (map_of (derived frame) name)"

text \<open>
  \<open>plot\<close> (lines 194-235), given the inputs and the frame object \<open>filter_df()\<close>
  returned. The second component is that object after the two assignments of lines
  200-201; \<open>upper\<close> and \<open>lower\<close> are new frames.
\<close>

definition plot :: "inputs \<Rightarrow> hourly_dataframe \<Rightarrow> figure \<times> hourly_dataframe" where
  "plot i frame0 =
     (let frame1 = setitem frame0 ''weekrollingavg''
                     (roll_mean 7 (map temperature_2m_min (rows frame0)));
          frame2 = setitem frame1 ''monthrollingavg''
                     (roll_mean 30 (map temperature_2m_min (rows frame1)));
          upper = select_rows
                    (map (\<lambda>r. reading_ge (temperature_2m_min r) (input_plotTemp i)) (rows frame2))
                    frame2;
          lower = select_rows
                    (map (\<lambda>r. reading_lt (temperature_2m_min r) (input_plotTemp i)) (rows frame2))
                    frame2
      in (\<lparr>axhline = input_plotTemp i,
           scatter_black = rows upper,
           scatter_lightgray = rows lower,
           line_orange = (if ''weekly'' \<in> set (input_plotOptions i)
                          then lineplot frame2 ''weekrollingavg'' else None),
           line_blue = (if ''monthly'' \<in> set (input_plotOptions i)
                        then lineplot frame2 ''monthrollingavg'' else None),
           ylabel = (if input_tempunits i = ''fahrenheit''
                     then ''Daily Minimum Temperature '' @ degree @ ''F''
                     else ''Daily Minimum Temperature '' @ degree @ ''C'')\<rparr>,
          frame2))"

section \<open>The reactive session\<close>

text \<open>
  The server function runs inside a Shiny session. \<open>apiresponse\<close> and \<open>filter_df\<close>
  are reactive calcs: a calc keeps the outcome of its last run (a value or an
  exception) until an input it read in that run changes, or a calc it called is
  stale. The session holds the current inputs, what the two calcs keep, and the number
  of calls of \<open>openmeteo.weather_api\<close> so far. The frame \<open>filter_df\<close> keeps is an
  object: \<open>plot\<close> and \<open>hist_table\<close> get that same object from \<open>filter_df()\<close>.
\<close>

record session =
  inputs_now :: inputs
  apiresponse_calc :: "(input_id list \<times> (py_error + response)) option"
  filter_df_calc :: "(py_error + hourly_dataframe) option"
  weather_api_calls :: nat

definition initial_session :: "inputs \<Rightarrow> session" where
  "initial_session i =
     \<lparr>inputs_now = i, apiresponse_calc = None, filter_df_calc = None, weather_api_calls = 0\<rparr>"

definition get_apiresponse ::
  "weather_api \<Rightarrow> catalog_row list \<Rightarrow> session \<Rightarrow> (py_error + response) \<times> session" where
  "get_apiresponse api frame s =
     (case apiresponse_calc s of
        Some (deps, kept) \<Rightarrow> (kept, s)
      | None \<Rightarrow>
          (case apiresponse api frame (inputs_now s) of
             (reads, n, outcome) \<Rightarrow>
               (outcome, s\<lparr>apiresponse_calc := Some (reads, outcome),
                           weather_api_calls := weather_api_calls s + n\<rparr>)))"

definition get_filter_df ::
  "weather_api \<Rightarrow> catalog_row list \<Rightarrow> session \<Rightarrow> (py_error + hourly_dataframe) \<times> session" where
  "get_filter_df api frame s =
     (case filter_df_calc s of
        Some kept \<Rightarrow> (kept, s)
      | None \<Rightarrow>
          (case get_apiresponse api frame s of
             (Inl e, s1) \<Rightarrow> (Inl e, s1\<lparr>filter_df_calc := Some (Inl e)\<rparr>)
           | (Inr r, s1) \<Rightarrow> (filter_df r, s1\<lparr>filter_df_calc := Some (filter_df r)\<rparr>)))"

text \<open>The outputs. An exception of a calc is the outcome of the output that called it.\<close>

definition render_text ::
  "weather_api \<Rightarrow> catalog_row list \<Rightarrow> session \<Rightarrow> (py_error + piece list) \<times> session" where
  "render_text api frame s =
     (case get_apiresponse api frame s of
        (Inl e, s1) \<Rightarrow> (Inl e, s1)
      | (Inr r, s1) \<Rightarrow> (Inr (text_out r), s1))"

definition render_map ::
  "weather_api \<Rightarrow> catalog_row list \<Rightarrow> session \<Rightarrow> (py_error + map_widget) \<times> session" where
  "render_map api frame s =
     (case get_apiresponse api frame s of
        (Inl e, s1) \<Rightarrow> (Inl e, s1)
      | (Inr r, s1) \<Rightarrow> (Inr (map_out r), s1))"

definition render_hist_table ::
  "weather_api \<Rightarrow> catalog_row list \<Rightarrow> session \<Rightarrow> (py_error + summary_table) \<times> session" where
  "render_hist_table api frame s =
     (case get_filter_df api frame s of
        (Inl e, s1) \<Rightarrow> (Inl e, s1)
      | (Inr histdf, s1) \<Rightarrow> (Inr (hist_table (input_tableTemp (inputs_now s1)) histdf), s1))"

text \<open>
  \<open>plot\<close> assigns to the object it got from \<open>filter_df()\<close>, so what the calc keeps
  afterwards is the frame with the two columns set.
\<close>

definition render_plot ::
  "weather_api \<Rightarrow> catalog_row list \<Rightarrow> session \<Rightarrow> (py_error + figure) \<times> session" where
  "render_plot api frame s =
     (case get_filter_df api frame s of
        (Inl e, s1) \<Rightarrow> (Inl e, s1)
      | (Inr df0, s1) \<Rightarrow>
          (case plot (inputs_now s1) df0 of
             (fig, df2) \<Rightarrow> (Inr fig, s1\<lparr>filter_df_calc := Some (Inr df2)\<rparr>)))"

text \<open>
  A change of the inputs. \<open>apiresponse\<close> is stale when an input it read has a new
  value; \<open>filter_df\<close> called \<open>apiresponse\<close> and nothing else, so it is stale with it.
\<close>

definition input_differs :: "input_id \<Rightarrow> inputs \<Rightarrow> inputs \<Rightarrow> bool" where
  "input_differs k a b =
     (case k of
        City \<Rightarrow> input_city a \<noteq> input_city b
      | Daterange \<Rightarrow> input_daterange a \<noteq> input_daterange b
      | Tempunits \<Rightarrow> input_tempunits a \<noteq> input_tempunits b
      | PlotTemp \<Rightarrow> input_plotTemp a \<noteq> input_plotTemp b
      | PlotOptions \<Rightarrow> input_plotOptions a \<noteq> input_plotOptions b
      | TableTemp \<Rightarrow> input_tableTemp a \<noteq> input_tableTemp b)"

definition all_inputs :: "input_id list" where
  "all_inputs = [City, Daterange, Tempunits, PlotTemp, PlotOptions, TableTemp]"

definition set_inputs :: "inputs \<Rightarrow> session \<Rightarrow> session" where
  "set_inputs new s =
     (let changed = filter (\<lambda>k. input_differs k (inputs_now s) new) all_inputs;
          stale = (case apiresponse_calc s of
                     None \<Rightarrow> False
                   | Some (deps, kept) \<Rightarrow> list_ex (\<lambda>k. k \<in> set deps) changed)
      in if stale
         then s\<lparr>inputs_now := new, apiresponse_calc := None, filter_df_calc := None\<rparr>
         else s\<lparr>inputs_now := new\<rparr>)"

text \<open>A session is what a sequence of events makes of the initial one.\<close>

datatype event = SetInputs inputs | RenderPlot | RenderTable | RenderText | RenderMap

fun step :: "weather_api \<Rightarrow> catalog_row list \<Rightarrow> event \<Rightarrow> session \<Rightarrow> session" where
  "step api frame (SetInputs new) s = set_inputs new s"
| "step api frame RenderPlot s = snd (render_plot api frame s)"
| "step api frame RenderTable s = snd (render_hist_table api frame s)"
| "step api frame RenderText s = snd (render_text api frame s)"
| "step api frame RenderMap s = snd (render_map api frame s)"

definition run :: "weather_api \<Rightarrow> catalog_row list \<Rightarrow> inputs \<Rightarrow> event list \<Rightarrow> session" where
  "run api frame i0 evs = fold (step api frame) evs (initial_session i0)"

text \<open>
  Two inputs agree on a list of reads when none of the inputs read differs. What
  \<open>apiresponse\<close> keeps is coherent when it is what a run at the current inputs gives.
  Two sessions are alike for \<open>apiresponse\<close> when they have the same inputs, the same
  kept outcome and the same number of calls.
\<close>

definition reads_agree :: "input_id list \<Rightarrow> inputs \<Rightarrow> inputs \<Rightarrow> bool" where
  "reads_agree ks a b = list_all (\<lambda>k. \<not> input_differs k a b) ks"

definition calc_coherent :: "weather_api \<Rightarrow> catalog_row list \<Rightarrow> session \<Rightarrow> bool" where
  "calc_coherent api frame s =
     (case apiresponse_calc s of
        None \<Rightarrow> True
      | Some (deps, kept) \<Rightarrow>
          (case apiresponse api frame (inputs_now s) of
             (reads, n, outcome) \<Rightarrow> deps = reads \<and> kept = outcome))"

definition same_api :: "session \<Rightarrow> session \<Rightarrow> bool" where
  "same_api a b =
     (inputs_now a = inputs_now b \<and> apiresponse_calc a = apiresponse_calc b
      \<and> weather_api_calls a = weather_api_calls b)"

section \<open>An example session\<close>

text \<open>
  A catalog of one city, the inputs of a first visit, and a service that resolves
  the request to the coordinate of its nearest grid cell and sends one day.
\<close>

definition demo_catalog :: "catalog_row list" where
  "demo_catalog =
     [\<lparr>city_state = ''Urbana, Illinois'', lat = 401106 / 10000, lng = - 882073 / 10000\<rparr>]"

definition demo_inputs :: inputs where
  "demo_inputs =
     \<lparr>input_city = ''Urbana, Illinois'', input_daterange = (18993, 18994),
      input_tempunits = ''fahrenheit'', input_plotTemp = 5, input_plotOptions = [],
      input_tableTemp = (0, 15)\<rparr>"

definition demo_response :: response where
  "demo_response =
     \<lparr>Latitude = 321 / 8, Longitude = - 353 / 4, Time = 0, TimeEnd = 86400,
      Interval = 86400, ValuesAsNumpy = [Some 3]\<rparr>"

definition demo_api :: weather_api where
  "demo_api u p = Inr [demo_response]"

section \<open>Facts about the model\<close>

declare np_arange_down.simps [simp del]

lemma masked_map: "masked (map p xs) xs = filter p xs"
  by (induction xs) (simp_all add: masked_def)

lemma len_select_rows:
  "len (select_rows (map p (rows histdf)) histdf) = length (filter p (rows histdf))"
  by (simp add: len_def select_rows_def masked_map)

lemma days_below_loop_eq:
  "days_below_loop histdf vallist tmp =
     tmp @ map (\<lambda>t. length (filter (\<lambda>r. reading_lt (temperature_2m_min r) t) (rows histdf))) vallist"
  by (induction vallist arbitrary: tmp) (simp_all add: len_select_rows)

lemma np_arange_down_rev: "np_arange_down hi (lo - 1) = rev [lo..hi]"
proof (induction hi "lo - 1" rule: np_arange_down.induct)
  case (1 start)
  show ?case
  proof (cases "lo \<le> start")
    case True
    then have "[lo..start] = [lo..start - 1] @ [start]"
      by (simp add: upto_rec2)
    with True 1 show ?thesis
      by (subst np_arange_down.simps) simp
  next
    case False
    then show ?thesis
      by (subst np_arange_down.simps) simp
  qed
qed

lemma rint_cases: "rint x = \<lfloor>x\<rfloor> \<or> (rint x = \<lfloor>x\<rfloor> + 1 \<and> 1 / 2 \<le> x - of_int \<lfloor>x\<rfloor>)"
  by (auto simp: rint_def Let_def)

lemma rint_near: "\<bar>of_int (rint x) - x\<bar> \<le> 1 / 2"
  unfolding rint_def Let_def by (auto simp: abs_if split: if_splits) linarith+

lemma rint_of_int: "rint (of_int n) = n"
  by (simp add: rint_def)

lemma rint_ge:
  assumes "of_int a \<le> x"
  shows "a \<le> rint x"
proof -
  have "a \<le> \<lfloor>x\<rfloor>" using assms by (simp add: le_floor_iff)
  moreover have "\<lfloor>x\<rfloor> \<le> rint x" using rint_cases[of x] by auto
  ultimately show ?thesis by linarith
qed

lemma rint_le:
  assumes "x \<le> of_int b"
  shows "rint x \<le> b"
proof (cases "rint x = \<lfloor>x\<rfloor>")
  case True
  then show ?thesis using assms by (simp add: floor_le_iff)
next
  case False
  with rint_cases[of x] have up: "rint x = \<lfloor>x\<rfloor> + 1" and d: "1 / 2 \<le> x - of_int \<lfloor>x\<rfloor>"
    by auto
  from d have "of_int \<lfloor>x\<rfloor> < x" by linarith
  with assms have "of_int \<lfloor>x\<rfloor> < (of_int b :: real)" by linarith
  then have "\<lfloor>x\<rfloor> < b" by simp
  with up show ?thesis by simp
qed

lemma rint_mono:
  assumes "x \<le> y"
  shows "rint x \<le> rint y"
proof (cases "\<lfloor>x\<rfloor> = \<lfloor>y\<rfloor>")
  case True
  then have "x - of_int \<lfloor>x\<rfloor> \<le> y - of_int \<lfloor>y\<rfloor>" using assms by simp
  then show ?thesis using True
    unfolding rint_def Let_def by (auto split: if_splits)
next
  case False
  moreover have "\<lfloor>x\<rfloor> \<le> \<lfloor>y\<rfloor>" using assms by (rule floor_mono)
  ultimately have "\<lfloor>x\<rfloor> + 1 \<le> \<lfloor>y\<rfloor>" by simp
  moreover have "rint x \<le> \<lfloor>x\<rfloor> + 1" using rint_cases[of x] by auto
  moreover have "\<lfloor>y\<rfloor> \<le> rint y" using rint_cases[of y] by auto
  ultimately show ?thesis by linarith
qed

lemma int_le_pow2_real: "(a::int) \<le> 2 ^ n \<Longrightarrow> (of_int a :: real) \<le> 2 ^ n"
proof -
  assume "a \<le> 2 ^ n"
  then have "(of_int a :: real) \<le> of_int (2 ^ n)" by (simp only: of_int_le_iff)
  then show ?thesis by simp
qed

lemma pow2_le_int_real: "2 ^ n \<le> (a::int) \<Longrightarrow> (2::real) ^ n \<le> of_int a"
proof -
  assume "2 ^ n \<le> a"
  then have "(of_int (2 ^ n) :: real) \<le> of_int a" by (simp only: of_int_le_iff)
  then show ?thesis by simp
qed

lemma expo_bounds:
  assumes "0 < x"
  shows "2 powi (expo x) \<le> x \<and> x < 2 powi (expo x + 1)"
proof (cases "1 \<le> x")
  case True
  define b where "b = bitlen \<lfloor>x\<rfloor>"
  have fpos: "0 < \<lfloor>x\<rfloor>" using True by simp
  from bitlen_bounds[OF fpos]
  have lo: "2 ^ nat (b - 1) \<le> \<lfloor>x\<rfloor>" and hi: "\<lfloor>x\<rfloor> < 2 ^ nat b"
    by (simp_all add: b_def)
  have b1: "1 \<le> b" using fpos by (auto simp: b_def bitlen_alt_def)
  have e: "expo x = b - 1" using True by (simp add: expo_def b_def)
  have "(2::real) powi (b - 1) = 2 ^ nat (b - 1)" using b1 by (simp add: power_int_def)
  also have "\<dots> \<le> of_int \<lfloor>x\<rfloor>" using lo by (rule pow2_le_int_real)
  also have "\<dots> \<le> x" by simp
  finally have l: "2 powi (expo x) \<le> x" by (simp add: e)
  have "\<lfloor>x\<rfloor> + 1 \<le> 2 ^ nat b" using hi by simp
  then have "of_int (\<lfloor>x\<rfloor> + 1) \<le> (2::real) ^ nat b" by (rule int_le_pow2_real)
  moreover have "x < of_int (\<lfloor>x\<rfloor> + 1)" by linarith
  ultimately have "x < 2 ^ nat b" by (rule less_le_trans[rotated])
  moreover have "(2::real) powi (b - 1 + 1) = 2 ^ nat b" using b1 by (simp add: power_int_def)
  ultimately have "x < 2 powi (expo x + 1)" by (simp add: e)
  with l show ?thesis by simp
next
  case False
  then have x1: "x < 1" by simp
  define m where "m = \<lceil>1 / x\<rceil>"
  define b where "b = bitlen (m - 1)"
  have inv: "1 < 1 / x" using assms x1 by simp
  then have m2: "2 \<le> m" unfolding m_def by linarith
  then have mpos: "0 < m - 1" by simp
  from bitlen_bounds[OF mpos]
  have lo: "2 ^ nat (b - 1) \<le> m - 1" and hi: "m - 1 < 2 ^ nat b"
    by (simp_all add: b_def)
  have b1: "1 \<le> b" using mpos by (auto simp: b_def bitlen_alt_def)
  have e: "expo x = - b" using False by (simp add: expo_def b_def m_def)
  have "m \<le> 2 ^ nat b" using hi by simp
  then have "of_int m \<le> (2::real) ^ nat b" by (rule int_le_pow2_real)
  moreover have "1 / x \<le> of_int m" unfolding m_def by linarith
  ultimately have "1 / x \<le> 2 ^ nat b" by linarith
  then have "1 \<le> 2 ^ nat b * x" using assms by (simp add: field_simps)
  then have "1 / 2 ^ nat b \<le> x" by (simp add: field_simps)
  moreover have "(2::real) powi (- b) = 1 / 2 ^ nat b"
    using b1 by (simp add: power_int_def field_simps)
  ultimately have l: "2 powi (expo x) \<le> x" by (simp add: e)
  have "of_int (m - 1) < 1 / x" unfolding m_def by linarith
  moreover have "(2::real) ^ nat (b - 1) \<le> of_int (m - 1)"
    using lo by (rule pow2_le_int_real)
  ultimately have "2 ^ nat (b - 1) < 1 / x" by linarith
  then have "2 ^ nat (b - 1) * x < 1" using assms by (simp add: field_simps)
  then have "x < 1 / 2 ^ nat (b - 1)" by (simp add: field_simps)
  moreover have "(2::real) powi (- b + 1) = 1 / 2 ^ nat (b - 1)"
  proof (cases "b = 1")
    case True
    then show ?thesis by simp
  next
    case False
    with b1 have "- b + 1 < 0" by simp
    then have "(2::real) powi (- b + 1) = inverse 2 ^ nat (- (- b + 1))"
      by (simp add: power_int_def)
    also have "nat (- (- b + 1)) = nat (b - 1)" by simp
    finally show ?thesis by (simp add: field_simps power_inverse)
  qed
  ultimately have "x < 2 powi (expo x + 1)" by (simp add: e)
  with l show ?thesis by simp
qed

lemma pow2_less_exp: "(2::real) powi a < 2 powi b \<Longrightarrow> a < b"
proof (rule ccontr)
  assume l: "(2::real) powi a < 2 powi b" and n: "\<not> a < b"
  then have "b \<le> a" by simp
  then have "(2::real) powi b \<le> 2 powi a" by (intro power_int_increasing) simp_all
  with l show False by simp
qed

lemma expo_unique:
  assumes "0 < x" and "2 powi e \<le> x" and "x < 2 powi (e + 1)"
  shows "expo x = e"
proof -
  from expo_bounds[OF assms(1)]
  have l: "2 powi (expo x) \<le> x" and h: "x < 2 powi (expo x + 1)" by simp_all
  from l assms(3) have "(2::real) powi (expo x) < 2 powi (e + 1)" by simp
  then have "expo x < e + 1" by (rule pow2_less_exp)
  moreover from assms(2) h have "(2::real) powi e < 2 powi (expo x + 1)" by simp
  then have "e < expo x + 1" by (rule pow2_less_exp)
  ultimately show ?thesis by simp
qed

lemma pow2_split: "(2::real) powi (a + b) = 2 powi a * 2 powi b"
  by (rule power_int_add) simp

lemma pow2_cancel: "(2::real) powi (52 - e) * 2 powi (e - 52) = 1"
  using pow2_split[of "52 - e" "e - 52"] by simp

lemma fl_eval:
  assumes "0 < x" and "2 powi e \<le> x" and "x < 2 powi (e + 1)"
  shows "fl x = of_int (rint (x * 2 powi (52 - e))) * 2 powi (e - 52)"
  using assms expo_unique[OF assms] by (simp add: fl_def)

lemma fl_eval_neg:
  assumes "x < 0" and "2 powi e \<le> - x" and "- x < 2 powi (e + 1)"
  shows "fl x = of_int (rint (x * 2 powi (52 - e))) * 2 powi (e - 52)"
proof -
  have "expo \<bar>x\<bar> = e" using assms by (intro expo_unique) simp_all
  then show ?thesis using assms(1) by (simp add: fl_def)
qed

lemma fl_zero: "fl 0 = 0"
  by (simp add: fl_def)

lemma fl_range:
  assumes "0 < x"
  shows "2 powi (expo x) \<le> fl x \<and> fl x \<le> 2 powi (expo x + 1)"
proof -
  define e where "e = expo x"
  define y where "y = x * 2 powi (52 - e)"
  from expo_bounds[OF assms] have l: "2 powi e \<le> x" and h: "x < 2 powi (e + 1)"
    by (simp_all add: e_def)
  have f: "fl x = of_int (rint y) * 2 powi (e - 52)"
    using assms by (simp add: fl_def e_def y_def)
  have s: "(0::real) < 2 powi (52 - e)" by simp
  have "2 powi e * 2 powi (52 - e) \<le> y"
    unfolding y_def using l s by (intro mult_right_mono) simp_all
  moreover have "(2::real) powi e * 2 powi (52 - e) = 2 ^ 52"
    using pow2_split[of e "52 - e"] by simp
  ultimately have "of_int (2 ^ 52) \<le> y" by simp
  then have lo: "2 ^ 52 \<le> rint y" by (rule rint_ge)
  have "y \<le> 2 powi (e + 1) * 2 powi (52 - e)"
    unfolding y_def using h s by (intro mult_right_mono) simp_all
  moreover have "(2::real) powi (e + 1) * 2 powi (52 - e) = 2 ^ 53"
    using pow2_split[of "e + 1" "52 - e"] by simp
  ultimately have "y \<le> of_int (2 ^ 53)" by simp
  then have hi: "rint y \<le> 2 ^ 53" by (rule rint_le)
  have t: "(0::real) \<le> 2 powi (e - 52)" by simp
  have a1: "(2::real) ^ 52 * 2 powi (e - 52) \<le> of_int (rint y) * 2 powi (e - 52)"
    using pow2_le_int_real[OF lo] t by (intro mult_right_mono)
  have a2: "(2::real) ^ 52 * 2 powi (e - 52) = 2 powi e"
    using pow2_split[of 52 "e - 52"] by simp
  have a: "2 powi e \<le> fl x" using a1 unfolding f a2 .
  have b1: "of_int (rint y) * 2 powi (e - 52) \<le> (2::real) ^ 53 * 2 powi (e - 52)"
    using int_le_pow2_real[OF hi] t by (intro mult_right_mono)
  have b2: "(2::real) ^ 53 * 2 powi (e - 52) = 2 powi (e + 1)"
  proof -
    have "e + 1 = 53 + (e - 52)" by simp
    then have "(2::real) powi (e + 1) = 2 powi (53 + (e - 52))" by (rule arg_cong)
    also have "\<dots> = 2 powi 53 * 2 powi (e - 52)" by (rule pow2_split)
    finally show ?thesis by simp
  qed
  have b: "fl x \<le> 2 powi (e + 1)" using b1 unfolding f b2 .
  from a b show ?thesis by (simp add: e_def)
qed

lemma fl_nonneg: "0 \<le> x \<Longrightarrow> 0 \<le> fl x"
proof (cases "x = 0")
  case True
  then show ?thesis by (simp add: fl_zero)
next
  case False
  assume "0 \<le> x"
  with False have "0 < x" by simp
  from fl_range[OF this] have "2 powi (expo x) \<le> fl x" by simp
  moreover have "(0::real) \<le> 2 powi (expo x)" by simp
  ultimately show ?thesis by linarith
qed

lemma fl_mono:
  assumes "0 \<le> x" and "x \<le> y"
  shows "fl x \<le> fl y"
proof (cases "x = 0")
  case True
  then show ?thesis using assms fl_nonneg[of y] by (simp add: fl_zero)
next
  case False
  with assms have xp: "0 < x" and yp: "0 < y" by simp_all
  from expo_bounds[OF xp] have xl: "2 powi (expo x) \<le> x" by simp
  from expo_bounds[OF yp] have yh: "y < 2 powi (expo y + 1)" by simp
  from xl assms(2) yh have "(2::real) powi (expo x) < 2 powi (expo y + 1)" by linarith
  then have le: "expo x \<le> expo y" using pow2_less_exp by fastforce
  show ?thesis
  proof (cases "expo x = expo y")
    case True
    have "x * 2 powi (52 - expo y) \<le> y * 2 powi (52 - expo y)"
      using assms(2) by (intro mult_right_mono) simp_all
    then have "rint (x * 2 powi (52 - expo y)) \<le> rint (y * 2 powi (52 - expo y))"
      by (rule rint_mono)
    then have "(of_int (rint (x * 2 powi (52 - expo y))) :: real)
        \<le> of_int (rint (y * 2 powi (52 - expo y)))" by (simp only: of_int_le_iff)
    then have "of_int (rint (x * 2 powi (52 - expo y))) * 2 powi (expo y - 52)
        \<le> of_int (rint (y * 2 powi (52 - expo y))) * (2::real) powi (expo y - 52)"
      by (intro mult_right_mono) simp_all
    then show ?thesis using xp yp True by (simp add: fl_def)
  next
    case False
    with le have "expo x + 1 \<le> expo y" by simp
    then have "(2::real) powi (expo x + 1) \<le> 2 powi (expo y)"
      by (intro power_int_increasing) simp_all
    moreover from fl_range[OF xp] have "fl x \<le> 2 powi (expo x + 1)" by simp
    moreover from fl_range[OF yp] have "2 powi (expo y) \<le> fl y" by simp
    ultimately show ?thesis by linarith
  qed
qed

lemma fl_of_nat:
  assumes "n < 2 ^ 53"
  shows "fl (real n) = real n"
proof (cases "n = 0")
  case True
  then show ?thesis by (simp add: fl_zero)
next
  case False
  then have np: "0 < real n" by simp
  define e where "e = expo (real n)"
  from expo_bounds[OF np] have l: "2 powi e \<le> real n" by (simp add: e_def)
  have "real n < 2 ^ 53" using assms by (metis of_nat_less_iff of_nat_numeral of_nat_power)
  then have "real n < 2 powi 53" by simp
  with l have "(2::real) powi e < 2 powi 53" by linarith
  then have e53: "e < 53" by (rule pow2_less_exp)
  then have "(2::real) powi (52 - e) = 2 ^ nat (52 - e)" by (simp add: power_int_def)
  then have "real n * 2 powi (52 - e) = of_int (int n * 2 ^ nat (52 - e))" by simp
  then have "rint (real n * 2 powi (52 - e)) = int n * 2 ^ nat (52 - e)"
    by (simp only: rint_of_int)
  then have "fl (real n) = of_int (int n * 2 ^ nat (52 - e)) * 2 powi (e - 52)"
    using np by (simp add: fl_def e_def)
  also have "\<dots> = real n * (2 powi (52 - e) * 2 powi (e - 52))"
    using \<open>(2::real) powi (52 - e) = 2 ^ nat (52 - e)\<close> by simp
  also have "\<dots> = real n" by (simp only: pow2_cancel mult_1_right)
  finally show ?thesis .
qed

lemma fl_error:
  assumes "0 < x" and "x \<le> 2 powi e"
  shows "\<bar>fl x - x\<bar> \<le> 2 powi (e - 53)"
proof -
  define ex where "ex = expo x"
  define y where "y = x * 2 powi (52 - ex)"
  from expo_bounds[OF assms(1)] have "2 powi ex \<le> x" by (simp add: ex_def)
  with assms(2) have "(2::real) powi ex \<le> 2 powi e" by linarith
  then have le: "ex \<le> e"
  proof (rule_tac ccontr)
    assume a: "(2::real) powi ex \<le> 2 powi e" and "\<not> ex \<le> e"
    then have "e < ex" by simp
    then have "(2::real) powi e < 2 powi ex" by (intro power_int_strict_increasing) simp_all
    with a show False by simp
  qed
  have f: "fl x = of_int (rint y) * 2 powi (ex - 52)"
    using assms(1) by (simp add: fl_def ex_def y_def)
  have x: "x = y * 2 powi (ex - 52)"
    unfolding y_def using pow2_cancel[of ex] by (simp add: mult.assoc)
  have "fl x - x = (of_int (rint y) - y) * 2 powi (ex - 52)"
    by (subst x, subst f) (simp add: algebra_simps)
  then have "\<bar>fl x - x\<bar> = \<bar>of_int (rint y) - y\<bar> * 2 powi (ex - 52)"
    by (simp add: abs_mult)
  also have "\<dots> \<le> (1 / 2) * 2 powi (ex - 52)"
    using rint_near[of y] by (intro mult_right_mono) simp_all
  also have "\<dots> = 2 powi (ex - 53)"
    using pow2_split[of "- 1" "ex - 52"] by simp
  also have "\<dots> \<le> 2 powi (e - 53)"
    using le by (intro power_int_increasing) simp_all
  finally show ?thesis .
qed

lemma fl_203_400: "fl (203 / 400) = 4571153621781053 / 2 ^ 53"
  by (subst fl_eval[where e = "- 1"]) (simp_all add: rint_def)

lemma hist_table_eq:
  "hist_table (low, high) histdf =
     \<lparr>Temp = rev [low..high],
      Days_Below = map (\<lambda>t. length (filter (\<lambda>r. reading_lt (temperature_2m_min r) t) (rows histdf)))
                     (rev [low..high]),
      Proportion_Below =
        map (\<lambda>t. np_round (np_truediv
                    (length (filter (\<lambda>r. reading_lt (temperature_2m_min r) t) (rows histdf)))
                    (length (rows histdf))) 3)
          (rev [low..high])\<rparr>"
  by (simp add: hist_table_def Let_def np_arange_down_rev days_below_loop_eq len_def comp_def)

lemma tracks_add: "tracks st ws \<Longrightarrow> tracks (add_mean v st) (ws @ [v])"
  by (cases v) (simp_all add: tracks_def add_mean_def observed_def total_def)

lemma tracks_remove: "tracks st (v # ws) \<Longrightarrow> tracks (remove_mean v st) ws"
  by (cases v) (simp_all add: tracks_def remove_mean_def observed_def total_def)

lemma tracks_step:
  assumes "0 < w" and "tracks st (map (\<lambda>k. xs ! k) [i - w ..< i])"
  shows "tracks (add_mean (xs ! i) (if w \<le> i then remove_mean (xs ! (i - w)) st else st))
           (window w xs i)"
proof (cases "w \<le> i")
  case True
  with assms(1) have lt: "i - w < i" by simp
  then have "[i - w ..< i] = (i - w) # [Suc (i - w) ..< i]"
    by (simp add: upt_conv_Cons)
  with assms(2) have "tracks (remove_mean (xs ! (i - w)) st) (map (\<lambda>k. xs ! k) [Suc (i - w) ..< i])"
    by (simp add: tracks_remove)
  then have "tracks (add_mean (xs ! i) (remove_mean (xs ! (i - w)) st))
               (map (\<lambda>k. xs ! k) [Suc (i - w) ..< i] @ [xs ! i])"
    by (rule tracks_add)
  moreover have "Suc i - w = Suc (i - w)" using True by simp
  ultimately show ?thesis using True lt by (simp add: window_def)
next
  case False
  then have "i - w = 0" "Suc i - w = 0" by simp_all
  with assms(2) have "tracks st (map (\<lambda>k. xs ! k) [0 ..< i])" by simp
  then have "tracks (add_mean (xs ! i) st) (map (\<lambda>k. xs ! k) [0 ..< i] @ [xs ! i])"
    by (rule tracks_add)
  then show ?thesis using False \<open>Suc i - w = 0\<close> by (simp add: window_def)
qed

lemma calc_mean_tracks: "tracks st ws \<Longrightarrow> calc_mean w st =
   (if w \<le> observed ws \<and> 0 < observed ws then Some (total ws / real (observed ws)) else None)"
  by (simp add: calc_mean_def tracks_def)

lemma roll_mean_loop_eq:
  "0 < w \<Longrightarrow> tracks st (map (\<lambda>k. xs ! k) [i - w ..< i]) \<Longrightarrow>
   roll_mean_loop w xs i st n = map (mean_at w xs) [i ..< i + n]"
proof (induction n arbitrary: i st)
  case 0
  then show ?case by simp
next
  case (Suc n)
  let ?st2 = "add_mean (xs ! i) (if w \<le> i then remove_mean (xs ! (i - w)) st else st)"
  have t2: "tracks ?st2 (window w xs i)"
    using Suc.prems by (rule tracks_step)
  then have t2': "tracks ?st2 (map (\<lambda>k. xs ! k) [Suc i - w ..< Suc i])"
    by (simp add: window_def)
  have rest: "roll_mean_loop w xs (Suc i) ?st2 n = map (mean_at w xs) [Suc i ..< Suc i + n]"
    using Suc.prems(1) t2' by (rule Suc.IH)
  have hd: "calc_mean w ?st2 = mean_at w xs i"
    using calc_mean_tracks[OF t2] by (simp add: mean_at_def)
  have "[i ..< i + Suc n] = i # [Suc i ..< Suc i + n]"
    by (simp add: upt_conv_Cons)
  then show ?case
    using rest hd by (simp add: Let_def)
qed

lemma roll_mean_eq: "0 < w \<Longrightarrow> roll_mean w xs = map (mean_at w xs) [0 ..< length xs]"
  using roll_mean_loop_eq[of w "\<lparr>nobs = 0, sum_x = 0\<rparr>" xs 0 "length xs"]
  by (simp add: roll_mean_def tracks_def observed_def total_def)

lemma observed_le: "observed ws \<le> length ws"
  by (simp add: observed_def)

lemma observed_all: "(observed ws = length ws) = list_all (\<lambda>v. v \<noteq> None) ws"
  unfolding observed_def list_all_iff
  by (metis (mono_tags, lifting) filter_True length_filter_less less_irrefl_nat mem_Collect_eq set_filter)

lemma length_window: "length (window w xs i) = min w (Suc i)"
proof -
  have "length (window w xs i) = Suc i - (Suc i - w)"
    by (simp only: window_def length_map length_upt)
  then show ?thesis by arith
qed

lemma mean_at_arithmetic:
  assumes "0 < w"
  shows "mean_at w xs i = (if Suc i < w then None else arithmetic_mean (window w xs i))"
proof (cases "Suc i < w")
  case True
  then have "observed (window w xs i) < w"
    using observed_le[of "window w xs i"] by (simp add: length_window)
  with True show ?thesis by (simp add: mean_at_def)
next
  case False
  then have len: "length (window w xs i) = w" by (simp add: length_window)
  show ?thesis
  proof (cases "list_all (\<lambda>v. v \<noteq> None) (window w xs i)")
    case True
    then have "observed (window w xs i) = w" using len observed_all by metis
    moreover have "window w xs i \<noteq> []" using len assms by auto
    ultimately show ?thesis using False True len assms
      by (simp add: mean_at_def arithmetic_mean_def)
  next
    case no: False
    then have "observed (window w xs i) \<noteq> w" using len observed_all by metis
    then have "observed (window w xs i) < w"
      using observed_le[of "window w xs i"] len by simp
    then show ?thesis using False no by (simp add: mean_at_def arithmetic_mean_def)
  qed
qed

lemma roll_mean_arithmetic:
  "0 < w \<Longrightarrow> roll_mean w xs =
     map (\<lambda>i. if Suc i < w then None else arithmetic_mean (window w xs i)) [0 ..< length xs]"
  by (simp add: roll_mean_eq mean_at_arithmetic)

lemma window_rows:
  assumes "i < length rs"
  shows "window w (map f rs) i = map (\<lambda>k. f (rs ! k)) [Suc i - w ..< Suc i]"
  unfolding window_def using assms by (intro map_cong) auto

lemma roll_mean_rows:
  assumes "0 < w"
  shows "roll_mean w (map f rs) =
     map (\<lambda>i. if Suc i < w then None
               else arithmetic_mean (map (\<lambda>k. f (rs ! k)) [Suc i - w ..< Suc i]))
       [0 ..< length rs]"
  unfolding roll_mean_arithmetic[OF assms]
  by (intro map_cong) (simp_all add: window_rows)

lemma rolling_example:
  "roll_mean 7 (map Some [1, 2, 3, 4, 5, 6, 7, 8]) =
     [None, None, None, None, None, None, Some 4, Some 5]"
  by code_simp

lemma apiresponse_params_reads:
  "set (fst (apiresponse_params frame i)) \<subseteq> {City, Daterange, Tempunits}"
  by (auto simp: apiresponse_params_def Let_def split: sum.splits)

lemma apiresponse_reads:
  "fst (apiresponse api frame i) = fst (apiresponse_params frame i)"
  by (simp add: apiresponse_def split: prod.splits sum.splits)

lemma apiresponse_params_agree:
  assumes "reads_agree (fst (apiresponse_params frame a)) a b"
  shows "apiresponse_params frame b = apiresponse_params frame a"
proof -
  have base: "input_daterange a = input_daterange b \<and> input_city a = input_city b"
    using assms
    by (auto simp: reads_agree_def apiresponse_params_def Let_def input_differs_def
        split: sum.splits if_splits)
  show ?thesis
  proof (cases "snd (apiresponse_params frame a)")
    case (Inl e)
    then show ?thesis using base
      by (auto simp: apiresponse_params_def Let_def split: sum.splits if_splits)
  next
    case (Inr p)
    then have "input_tempunits a = input_tempunits b"
      using assms
      by (auto simp: reads_agree_def apiresponse_params_def Let_def input_differs_def
          split: sum.splits if_splits)
    then show ?thesis using base
      by (auto simp: apiresponse_params_def Let_def split: sum.splits if_splits)
  qed
qed

lemma apiresponse_agree:
  assumes "reads_agree (fst (apiresponse_params frame a)) a b"
  shows "apiresponse api frame b = apiresponse api frame a"
  by (simp add: apiresponse_def apiresponse_params_agree[OF assms])

lemma three_agree:
  assumes "input_city b = input_city a" "input_daterange b = input_daterange a"
    "input_tempunits b = input_tempunits a"
  shows "reads_agree (fst (apiresponse_params frame a)) a b"
  using apiresponse_params_reads[of frame a] assms
  by (auto simp: reads_agree_def list_all_iff input_differs_def)

lemma not_stale_agree:
  assumes "\<not> list_ex (\<lambda>k. k \<in> set deps)
             (filter (\<lambda>k. input_differs k a b) all_inputs)"
  shows "reads_agree deps a b"
  unfolding reads_agree_def list_all_iff
proof
  fix k assume k: "k \<in> set deps"
  show "\<not> input_differs k a b"
  proof
    assume d: "input_differs k a b"
    have "k \<in> set all_inputs"
      by (cases k) (simp_all add: all_inputs_def)
    with d have "k \<in> set (filter (\<lambda>k. input_differs k a b) all_inputs)"
      by (simp only: set_filter mem_Collect_eq) 
    with k assms show False
      unfolding list_ex_iff by auto
  qed
qed

lemma agree_not_stale:
  assumes "reads_agree deps a b"
  shows "\<not> list_ex (\<lambda>k. k \<in> set deps)
             (filter (\<lambda>k. input_differs k a b) all_inputs)"
  using assms unfolding reads_agree_def list_all_iff list_ex_iff
  by auto

lemma set_inputs_coherent:
  assumes "calc_coherent api frame s"
  shows "calc_coherent api frame (set_inputs new s)"
proof (cases "apiresponse_calc s")
  case None
  then show ?thesis by (simp add: set_inputs_def calc_coherent_def)
next
  case (Some c)
  obtain deps kept where c: "c = (deps, kept)" by (cases c)
  from assms Some c have co: "deps = fst (apiresponse api frame (inputs_now s))"
      "kept = snd (snd (apiresponse api frame (inputs_now s)))"
    by (auto simp: calc_coherent_def split: prod.splits)
  show ?thesis
  proof (cases "list_ex (\<lambda>k. k \<in> set deps)
             (filter (\<lambda>k. input_differs k (inputs_now s) new) all_inputs)")
    case True
    then show ?thesis using Some c by (simp add: set_inputs_def calc_coherent_def)
  next
    case False
    then have "reads_agree deps (inputs_now s) new" by (rule not_stale_agree)
    then have "apiresponse api frame new = apiresponse api frame (inputs_now s)"
      unfolding co(1) apiresponse_reads by (rule apiresponse_agree)
    then show ?thesis using False Some c co
      by (simp add: set_inputs_def calc_coherent_def split: prod.splits)
  qed
qed

lemma get_apiresponse_kept:
  "apiresponse_calc s = Some c \<Longrightarrow> get_apiresponse api frame s = (snd c, s)"
  by (cases c) (simp add: get_apiresponse_def)

lemma get_apiresponse_fresh:
  "apiresponse_calc s = None \<Longrightarrow>
   get_apiresponse api frame s =
     (snd (snd (apiresponse api frame (inputs_now s))),
      s\<lparr>apiresponse_calc := Some (fst (apiresponse api frame (inputs_now s)),
                                    snd (snd (apiresponse api frame (inputs_now s)))),
        weather_api_calls := weather_api_calls s
                             + fst (snd (apiresponse api frame (inputs_now s)))\<rparr>)"
  by (simp add: get_apiresponse_def split: prod.splits)

lemma get_apiresponse_inputs:
  "inputs_now (snd (get_apiresponse api frame s)) = inputs_now s"
  by (cases "apiresponse_calc s") (simp_all add: get_apiresponse_kept get_apiresponse_fresh)

lemma get_apiresponse_filter:
  "filter_df_calc (snd (get_apiresponse api frame s)) = filter_df_calc s"
  by (cases "apiresponse_calc s") (simp_all add: get_apiresponse_kept get_apiresponse_fresh)

lemma get_apiresponse_coherent:
  "calc_coherent api frame s \<Longrightarrow> calc_coherent api frame (snd (get_apiresponse api frame s))"
  by (cases "apiresponse_calc s")
     (simp_all add: get_apiresponse_kept get_apiresponse_fresh calc_coherent_def split: prod.splits)

lemma get_apiresponse_filled:
  "apiresponse_calc (snd (get_apiresponse api frame s)) \<noteq> None"
  by (cases "apiresponse_calc s") (simp_all add: get_apiresponse_kept get_apiresponse_fresh)

text \<open>What \<open>get_filter_df\<close> does to the session: it runs \<open>apiresponse\<close> at most, and
  sets what \<open>filter_df\<close> keeps.\<close>

lemma get_filter_df_session:
  "\<exists>fc. snd (get_filter_df api frame s) =
          (if filter_df_calc s = None then snd (get_apiresponse api frame s) else s)
            \<lparr>filter_df_calc := Some fc\<rparr>
        \<and> fst (get_filter_df api frame s) = fc"
proof (cases "filter_df_calc s")
  case None
  then show ?thesis
    by (cases "get_apiresponse api frame s")
       (auto simp: get_filter_df_def split: sum.splits)
next
  case (Some kept)
  then have "s\<lparr>filter_df_calc := Some kept\<rparr> = s" by simp
  with Some show ?thesis by (auto simp: get_filter_df_def)
qed

lemma same_api_coherent:
  assumes "same_api a b" and "calc_coherent api frame b"
  shows "calc_coherent api frame a"
proof -
  have i: "inputs_now a = inputs_now b" and c: "apiresponse_calc a = apiresponse_calc b"
    using assms(1) by (simp_all add: same_api_def)
  show ?thesis using assms(2) unfolding calc_coherent_def i c .
qed

lemma get_filter_df_api:
  "same_api (snd (get_filter_df api frame s))
     (if filter_df_calc s = None then snd (get_apiresponse api frame s) else s)"
  using get_filter_df_session[of api frame s] by (auto simp: same_api_def)

lemma get_filter_df_kept:
  "filter_df_calc s = Some kept \<Longrightarrow> get_filter_df api frame s = (kept, s)"
  by (simp add: get_filter_df_def)

lemma get_filter_df_filled:
  "filter_df_calc (snd (get_filter_df api frame s)) = Some (fst (get_filter_df api frame s))"
  using get_filter_df_session[of api frame s] by auto

lemma render_plot_session:
  "snd (render_plot api frame s) =
     (snd (get_filter_df api frame s))
       \<lparr>filter_df_calc :=
          Some (map_sum id (\<lambda>d. snd (plot (inputs_now (snd (get_filter_df api frame s))) d))
                  (fst (get_filter_df api frame s)))\<rparr>"
proof (cases "get_filter_df api frame s")
  case (Pair fc s1)
  have kept: "filter_df_calc s1 = Some fc"
    using get_filter_df_filled[of api frame s] Pair by simp
  show ?thesis
  proof (cases fc)
    case (Inl e)
    then have "s1\<lparr>filter_df_calc := Some (Inl e)\<rparr> = s1" using kept by simp
    then show ?thesis using Pair Inl by (simp add: render_plot_def)
  next
    case (Inr d)
    then show ?thesis using Pair by (simp add: render_plot_def split: prod.splits)
  qed
qed

lemma render_sessions:
  "snd (render_text api frame s) = snd (get_apiresponse api frame s)"
  "snd (render_map api frame s) = snd (get_apiresponse api frame s)"
  "snd (render_hist_table api frame s) = snd (get_filter_df api frame s)"
  by (simp_all add: render_text_def render_map_def render_hist_table_def
      split: prod.splits sum.splits)

lemma step_api:
  "same_api (step api frame e s)
     (case e of SetInputs new \<Rightarrow> set_inputs new s
      | _ \<Rightarrow> if e = RenderText \<or> e = RenderMap \<or> filter_df_calc s = None
             then snd (get_apiresponse api frame s) else s)"
proof (cases e)
  case (SetInputs new)
  then show ?thesis by (simp add: same_api_def)
next
  case RenderPlot
  have "same_api (snd (render_plot api frame s)) (snd (get_filter_df api frame s))"
    by (simp add: render_plot_session same_api_def)
  with get_filter_df_api[of api frame s] RenderPlot show ?thesis
    by (auto simp: same_api_def)
next
  case RenderTable
  with get_filter_df_api[of api frame s] show ?thesis
    by (auto simp: same_api_def render_sessions)
next
  case RenderText
  then show ?thesis by (simp add: same_api_def render_sessions)
next
  case RenderMap
  then show ?thesis by (simp add: same_api_def render_sessions)
qed

lemma step_coherent:
  assumes "calc_coherent api frame s"
  shows "calc_coherent api frame (step api frame e s)"
proof (rule same_api_coherent[OF step_api])
  show "calc_coherent api frame
     (case e of SetInputs new \<Rightarrow> set_inputs new s
      | _ \<Rightarrow> if e = RenderText \<or> e = RenderMap \<or> filter_df_calc s = None
             then snd (get_apiresponse api frame s) else s)"
    using assms set_inputs_coherent[OF assms] get_apiresponse_coherent[OF assms]
    by (cases e) auto
qed

lemma fold_coherent:
  "calc_coherent api frame s \<Longrightarrow> calc_coherent api frame (fold (step api frame) evs s)"
  by (induction evs arbitrary: s) (simp_all add: step_coherent)

lemma run_coherent: "calc_coherent api frame (run api frame i0 evs)"
  unfolding run_def
  by (rule fold_coherent) (simp add: calc_coherent_def initial_session_def)

lemma set_inputs_calls: "weather_api_calls (set_inputs new s) = weather_api_calls s"
  by (simp add: set_inputs_def Let_def)

lemma set_inputs_keeps:
  assumes "calc_coherent api frame s"
    and "reads_agree (fst (apiresponse_params frame (inputs_now s))) (inputs_now s) new"
  shows "set_inputs new s = s\<lparr>inputs_now := new\<rparr>"
proof (cases "apiresponse_calc s")
  case None
  then show ?thesis by (simp add: set_inputs_def)
next
  case (Some c)
  obtain deps kept where c: "c = (deps, kept)" by (cases c)
  from assms(1) Some c have "deps = fst (apiresponse api frame (inputs_now s))"
    by (auto simp: calc_coherent_def split: prod.splits)
  then have "reads_agree deps (inputs_now s) new"
    using assms(2) by (simp add: apiresponse_reads)
  then show ?thesis
    using agree_not_stale[of deps "inputs_now s" new] Some c by (simp add: set_inputs_def)
qed

lemma step_calls_kept:
  assumes "apiresponse_calc s \<noteq> None"
  shows "weather_api_calls (step api frame e s) = weather_api_calls s"
proof -
  from assms obtain c where "apiresponse_calc s = Some c" by auto
  then have "snd (get_apiresponse api frame s) = s" by (simp add: get_apiresponse_kept)
  with step_api[of api frame e s] show ?thesis
    by (cases e) (auto simp: same_api_def set_inputs_calls)
qed

lemma demo_apiresponse:
  "apiresponse demo_api demo_catalog demo_inputs =
     ([Daterange, Daterange, City, City, City, Tempunits], 1, Inr demo_response)"
  by (simp add: apiresponse_def apiresponse_params_def first_item_def demo_catalog_def
      demo_inputs_def demo_api_def)

lemma demo_first_render:
  "run demo_api demo_catalog demo_inputs [RenderText] =
     \<lparr>inputs_now = demo_inputs,
      apiresponse_calc = Some ([Daterange, Daterange, City, City, City, Tempunits], Inr demo_response),
      filter_df_calc = None, weather_api_calls = 1\<rparr>"
  by (simp add: run_def render_text_def get_apiresponse_def demo_apiresponse initial_session_def)

lemma plot_frame:
  "snd (plot i d) =
     d\<lparr>derived := AList.update ''monthrollingavg'' (roll_mean 30 (map temperature_2m_min (rows d)))
                    (AList.update ''weekrollingavg'' (roll_mean 7 (map temperature_2m_min (rows d)))
                       (derived d))\<rparr>"
  by (simp add: plot_def Let_def setitem_def)

lemma hist_table_rows_only:
  "rows a = rows b \<Longrightarrow> hist_table tt a = hist_table tt b"
  by (cases tt) (simp add: hist_table_eq)

lemma get_filter_df_inputs:
  "inputs_now (snd (get_filter_df api frame s)) = inputs_now s"
  using get_filter_df_api[of api frame s]
  by (auto simp: same_api_def get_apiresponse_inputs split: if_splits)

lemma render_plot_kept:
  "get_filter_df api frame (snd (render_plot api frame s)) =
     (map_sum id (\<lambda>d. snd (plot (inputs_now s) d)) (fst (get_filter_df api frame s)),
      snd (render_plot api frame s))"
  by (rule get_filter_df_kept) (simp add: render_plot_session get_filter_df_inputs)

lemma fl_one: "fl 1 = 1"
  using fl_of_nat[of 1] by simp

lemma fl_1000: "fl 1000 = 1000"
  using fl_of_nat[of 1000] by simp

lemma fl_unit:
  assumes "0 \<le> x" and "x \<le> 1"
  shows "0 \<le> fl x \<and> fl x \<le> 1"
  using fl_nonneg[OF assms(1)] fl_mono[OF assms] by (simp add: fl_one)

lemma fl_pos: "0 < x \<Longrightarrow> 0 < fl x"
proof -
  assume "0 < x"
  from fl_range[OF this] have "2 powi (expo x) \<le> fl x" by simp
  moreover have "(0::real) < 2 powi (expo x)" by simp
  ultimately show ?thesis by linarith
qed

lemma fl_nat_pos: "0 < n \<Longrightarrow> 0 < fl (real n)"
  by (rule fl_pos) simp

lemma quotient_unit:
  assumes "d \<le> n" and "0 < n"
  shows "0 \<le> fl (real d) / fl (real n) \<and> fl (real d) / fl (real n) \<le> 1"
proof -
  have "fl (real d) \<le> fl (real n)" using assms(1) by (intro fl_mono) simp_all
  moreover have "0 \<le> fl (real d)" by (rule fl_nonneg) simp
  moreover have "0 < fl (real n)" using assms(2) by (rule fl_nat_pos)
  ultimately show ?thesis by simp
qed

lemma thousandths_bounds:
  assumes "d \<le> n" and "0 < n"
  shows "0 \<le> thousandths d n \<and> thousandths d n \<le> 1000"
proof -
  define q where "q = fl (fl (real d) / fl (real n))"
  have q: "0 \<le> q \<and> q \<le> 1"
    unfolding q_def using quotient_unit[OF assms] by (intro fl_unit) simp_all
  then have p: "0 \<le> q * 1000" "q * 1000 \<le> 1000" by simp_all
  have m0: "0 \<le> fl (q * 1000)" using p(1) by (rule fl_nonneg)
  have m1: "fl (q * 1000) \<le> 1000" using fl_mono[OF p] by (simp add: fl_1000)
  have "0 \<le> rint (fl (q * 1000))" using m0 by (intro rint_ge) simp
  moreover have "rint (fl (q * 1000)) \<le> 1000" using m1 by (intro rint_le) simp
  ultimately show ?thesis by (simp add: thousandths_def q_def)
qed

lemma fl_thousandth:
  assumes "0 \<le> j" and "j \<le> 1000"
  shows "0 \<le> fl (of_int j / 1000) \<and> fl (of_int j / 1000) \<le> 1
         \<and> \<bar>fl (of_int j / 1000) - of_int j / 1000\<bar> \<le> 1 / 2 ^ 53"
proof -
  have x: "0 \<le> (of_int j / 1000 :: real)" "(of_int j / 1000 :: real) \<le> 1"
    using assms by simp_all
  have e: "\<bar>fl (of_int j / 1000) - of_int j / 1000\<bar> \<le> 1 / 2 ^ 53"
  proof (cases "j = 0")
    case True
    then show ?thesis by (simp add: fl_zero)
  next
    case False
    with assms have "0 < (of_int j / 1000 :: real)" by simp
    from fl_error[OF this, of 0] x(2) show ?thesis
      by (simp add: power_int_minus_divide)
  qed
  from fl_unit[OF x] e show ?thesis by simp
qed

lemma thousandths_zero: "thousandths 0 n = 0"
  by (simp add: thousandths_def fl_zero rint_def)

text \<open>
  Off a tie, the integer nearest to \<open>1000 d / n\<close> is at least \<open>1 / (2 n)\<close> away from
  the midpoints, far more than the rounding of the quotient and of the product can
  move it while \<open>n < 2 ^ 40\<close>.
\<close>

lemma half_gap:
  fixes j :: int and d n :: nat
  assumes "0 < n" and "1 / 2 < \<bar>of_int j - 1000 * real d / real n\<bar>"
  shows "1 / 2 + 1 / (2 * real n) \<le> \<bar>of_int j - 1000 * real d / real n\<bar>"
proof -
  define t where "t = 2 * j * int n - 2000 * int d"
  define A where "A = \<bar>of_int j - 1000 * real d / real n\<bar>"
  have np: "0 < real n" using assms(1) by simp
  have tt: "of_int t = 2 * real n * (of_int j - 1000 * real d / real n)"
    using np by (simp add: t_def field_simps)
  have "\<bar>of_int t :: real\<bar> = \<bar>2 * real n\<bar> * A"
    unfolding A_def tt by (rule abs_mult)
  then have ta: "\<bar>of_int t :: real\<bar> = A * (2 * real n)" using np by simp
  have "1 / 2 < A" using assms(2) by (simp add: A_def)
  then have "(1 / 2) * (2 * real n) < A * (2 * real n)"
    using np by (intro mult_strict_right_mono) simp_all
  then have "real n < \<bar>of_int t :: real\<bar>" by (simp add: ta)
  then have "real n < of_int \<bar>t\<bar>" by simp
  then have "int n < \<bar>t\<bar>" by (metis of_int_less_iff of_int_of_nat_eq)
  then have "int n + 1 \<le> \<bar>t\<bar>" by simp
  then have "(of_int (int n + 1) :: real) \<le> of_int \<bar>t\<bar>" by (simp only: of_int_le_iff)
  then have "real n + 1 \<le> \<bar>of_int t :: real\<bar>" by simp
  then have "real n + 1 \<le> A * (2 * real n)" by (simp only: ta)
  then have "(real n + 1) / (2 * real n) \<le> A"
    using np by (subst pos_divide_le_eq) simp_all
  moreover have "(real n + 1) / (2 * real n) = 1 / 2 + 1 / (2 * real n)"
    using np by (simp add: field_simps)
  ultimately show ?thesis by (simp add: A_def)
qed

lemma thousandths_near:
  assumes "d \<le> n" and "0 < n" and "n < 2 ^ 40"
  shows "\<bar>of_int (thousandths d n) / 1000 - real d / real n\<bar> \<le> 1 / 2000"
proof (cases "d = 0")
  case True
  then show ?thesis by (simp add: thousandths_zero)
next
  case False
  define q0 where "q0 = real d / real n"
  define q where "q = fl q0"
  define m where "m = fl (q * 1000)"
  define j where "j = rint m"
  have n53: "n < 2 ^ 53" using assms(3) by (rule less_trans) simp
  have d53: "d < 2 ^ 53" using assms(1) n53 by simp
  have j: "thousandths d n = j"
    by (simp add: thousandths_def j_def m_def q_def q0_def fl_of_nat[OF n53] fl_of_nat[OF d53])
  have np: "0 < real n" using assms(2) by simp
  have q0p: "0 < q0" using False np by (simp add: q0_def)
  have q01: "q0 \<le> 1" using assms(1) np by (simp add: q0_def)
  have eq: "\<bar>q - q0\<bar> \<le> 2 powi (- 53)"
    unfolding q_def using fl_error[OF q0p, of 0] q01 by simp
  have qp: "0 < q" unfolding q_def using q0p by (rule fl_pos)
  have q1: "q \<le> 1" unfolding q_def using fl_unit[of q0] q0p q01 by simp
  have pp: "0 < q * 1000" using qp by simp
  have "q * 1000 \<le> 2 powi 10" using q1 by simp
  from fl_error[OF pp this] have em: "\<bar>m - q * 1000\<bar> \<le> 2 powi (- 43)"
    by (simp add: m_def)
  have ej: "\<bar>of_int j - m\<bar> \<le> 1 / 2" unfolding j_def by (rule rint_near)
  define y where "y = 1000 * real d / real n"
  have yq: "y = q0 * 1000" by (simp add: y_def q0_def)
  have "\<bar>q * 1000 - y\<bar> = 1000 * \<bar>q - q0\<bar>"
    unfolding yq by (simp add: abs_if algebra_simps)
  also have "\<dots> \<le> 1000 * 2 powi (- 53)" using eq by simp
  finally have e1: "\<bar>q * 1000 - y\<bar> \<le> 1000 * 2 powi (- 53)" .
  have small: "(2::real) powi (- 43) + 1000 * 2 powi (- 53) < 2 powi (- 41)"
    by (simp add: power_int_minus_divide)
  have tot: "\<bar>of_int j - y\<bar> < 1 / 2 + 2 powi (- 41)"
    using ej em e1 small by linarith
  have "real n < 2 ^ 40" using assms(3) by (metis of_nat_less_iff of_nat_numeral of_nat_power)
  then have "2 * real n < 2 ^ 41" by simp
  then have "1 / 2 ^ 41 < 1 / (2 * real n)"
    using np by (intro divide_strict_left_mono) simp_all
  then have gap: "2 powi (- 41) < 1 / (2 * real n)" by (simp add: power_int_minus_divide)
  have "\<bar>of_int j - y\<bar> \<le> 1 / 2"
  proof (rule ccontr)
    assume "\<not> \<bar>of_int j - y\<bar> \<le> 1 / 2"
    then have "1 / 2 < \<bar>of_int j - 1000 * real d / real n\<bar>" by (simp add: y_def)
    from half_gap[OF assms(2) this] have "1 / 2 + 1 / (2 * real n) \<le> \<bar>of_int j - y\<bar>"
      by (simp add: y_def)
    with tot gap show False by linarith
  qed
  then have half: "\<bar>of_int j - y\<bar> \<le> 1 / 2" .
  have split_y: "of_int j / 1000 - real d / real n = (of_int j - y) / 1000"
    by (simp add: y_def diff_divide_distrib)
  have "\<bar>(of_int j - y) / 1000\<bar> = \<bar>of_int j - y\<bar> / 1000" by simp
  also have "\<dots> \<le> (1 / 2) / 1000"
    by (rule divide_right_mono[OF half]) simp
  finally have "\<bar>(of_int j - y) / 1000\<bar> \<le> 1 / 2000" by simp
  then have "\<bar>of_int j / 1000 - real d / real n\<bar> \<le> 1 / 2000"
    by (simp only: split_y)
  then show ?thesis by (simp only: j)
qed

lemma np_round_truediv:
  assumes "0 < n"
  shows "np_round (np_truediv d n) 3 = Num (fl (of_int (thousandths d n) / 1000))"
  using fl_nat_pos[OF assms] by (simp add: np_round_def np_truediv_def thousandths_def)

lemma np_round_truediv_zero: "np_round (np_truediv 0 0) 3 = NaN"
  by (simp add: np_round_def np_truediv_def fl_zero)

lemma get_apiresponse_outcome:
  assumes "calc_coherent api frame s"
  shows "fst (get_apiresponse api frame s) = snd (snd (apiresponse api frame (inputs_now s)))"
proof (cases "apiresponse_calc s")
  case None
  then show ?thesis by (simp add: get_apiresponse_fresh)
next
  case (Some c)
  with assms show ?thesis
    by (cases c) (auto simp: get_apiresponse_kept calc_coherent_def split: prod.splits)
qed

lemma thousandths_203_400: "thousandths 203 400 = 507"
proof -
  have d: "fl (real (203::nat)) = 203" using fl_of_nat[of 203] by simp
  have n: "fl (real (400::nat)) = 400" using fl_of_nat[of 400] by simp
  have q: "fl (203 / 400) = 4571153621781053 / 2 ^ 53"
    by (subst fl_eval[where e = "- 1"]) (simp_all add: rint_def)
  have m: "fl (4571153621781053 / 2 ^ 53 * 1000) = 8928034417541119 / 2 ^ 44"
    by (subst fl_eval[where e = 8]) (simp_all add: rint_def)
  have "rint (8928034417541119 / 2 ^ 44) = 507" by (simp add: rint_def)
  then show ?thesis by (simp only: thousandths_def d n q m)
qed

lemma fl_507: "fl (507 / 1000) = 4566650022153683 / 2 ^ 53"
  by (subst fl_eval[where e = "- 1"]) (simp_all add: rint_def)

section \<open>Properties\<close>

text \<open>
  C4. Whatever the sliders held before, the unit switch sets them to the values of the
  unit: under Fahrenheit (imperial) plotTemp is 5 within [-15, 50] and tableTemp is
  [0, 15] within [-25, 60]; under Celsius (metric) plotTemp is -15 within [-25, 10] and
  tableTemp is [-20, -10] within [-30, 15].
\<close>

theorem updateslider_resets:
  "updateslider ''fahrenheit'' ws =
     \<lparr>plotTemp_slider = \<lparr>slider_value = 5, slider_min = -15, slider_max = 50\<rparr>,
      tableTemp_slider = \<lparr>slider_value = (0, 15), slider_min = -25, slider_max = 60\<rparr>\<rparr>
   \<and> updateslider ''celsius'' ws =
     \<lparr>plotTemp_slider = \<lparr>slider_value = -15, slider_min = -25, slider_max = 10\<rparr>,
      tableTemp_slider = \<lparr>slider_value = (-20, -10), slider_min = -30, slider_max = 15\<rparr>\<rparr>"
  by (simp add: updateslider_def update_slider_def)

text \<open>
  C7, as the script has it. The written file has the header \<open>city_state,lat,lng\<close>
  and holds exactly the rows of the raw table whose population is at least 10000, in
  the raw table's order, each with the label \<open>city\<close>, a comma and a space, and
  \<open>state_name\<close>, and with the raw row's coordinate.
\<close>

theorem process_data_catalog:
  "header_line (process_data raw) = ''city_state,lat,lng''
   \<and> body (process_data raw) =
       map (\<lambda>r. \<lparr>city_state = city r @ '', '' @ state_name r, lat = lat_raw r, lng = lng_raw r\<rparr>)
         (filter (\<lambda>r. 10000 \<le> population r) raw)"
  by (simp add: process_data_def select_columns_def add_city_state_def keep_populous_def
      header_line_def raw_city.extend_def labelled_city.fields_def comp_def)

text \<open>
  C7 as stated fails on the header: for a raw table of one city of 38000 inhabitants the
  first line of the written file is not \<open>label,latitude,longitude\<close>.
\<close>

theorem process_data_header_counterexample:
  "header_line (process_data
      [\<lparr>city = ''Urbana'', state_name = ''Illinois'', population = 38000,
        lat_raw = 401106 / 10000, lng_raw = - 882073 / 10000\<rparr>])
   \<noteq> ''label,latitude,longitude''"
  by (simp add: process_data_def select_columns_def header_line_def)

text \<open>
  C10. Given the catalog frame, loading the module succeeds exactly when some row has
  the label \<open>Urbana, Illinois\<close>; it then keeps the latitude of the first such row, and
  otherwise it fails with \<open>IndexError\<close>, the exception of the list indexing.
\<close>

theorem module_load_needs_urbana:
  "module_load (Inr frame) =
     (case find (\<lambda>r. city_state r = ''Urbana, Illinois'') frame of
        None \<Rightarrow> Inl IndexError
      | Some r \<Rightarrow> Inr \<lparr>df = frame, cities = unique (map city_state frame), lat_default = lat r\<rparr>)
   \<and> (\<exists>g. module_load (Inr frame) = Inr g) = (''Urbana, Illinois'' \<in> set (map city_state frame))
   \<and> (module_load (Inr frame) = Inl IndexError) = (''Urbana, Illinois'' \<notin> set (map city_state frame))"
proof -
  let ?P = "\<lambda>r. city_state r = ''Urbana, Illinois''"
  have shape: "first_item (map lat (filter ?P frame)) =
      (case find ?P frame of None \<Rightarrow> Inl IndexError | Some r \<Rightarrow> Inr (lat r))"
    by (induction frame) (simp_all add: first_item_def)
  have none_iff: "(find ?P frame = None) = (''Urbana, Illinois'' \<notin> set (map city_state frame))"
    by (induction frame) auto
  show ?thesis
    using none_iff by (auto simp: module_load_def shape split: option.splits)
qed

text \<open>
  C1. For every frame and every range, the table has one row per integer temperature
  from \<open>high\<close> down to \<open>low\<close>, in descending order (\<open>high - low + 1\<close> rows when
  \<open>low \<le> high\<close>), and the days-below value of the row of temperature \<open>t\<close> is the number
  of rows of the frame whose minimum is strictly less than \<open>t\<close> (a missing reading is
  not less than anything).
\<close>

theorem hist_table_rows:
  "Temp (hist_table (low, high) histdf) = rev [low..high]
   \<and> length (Temp (hist_table (low, high) histdf)) = nat (high - low + 1)
   \<and> Days_Below (hist_table (low, high) histdf) =
       map (\<lambda>t. length (filter (\<lambda>r. case temperature_2m_min r of
                                        None \<Rightarrow> False | Some x \<Rightarrow> x < of_int t)
                          (rows histdf)))
         (rev [low..high])
   \<and> length (Proportion_Below (hist_table (low, high) histdf)) = nat (high - low + 1)"
  by (simp add: hist_table_eq reading_lt_def)

text \<open>
  C2. After \<open>plot\<close>, the column \<open>weekrollingavg\<close> of the frame is missing at the rows
  0 to 5 and at every row \<open>n \<ge> 6\<close> it is the arithmetic mean of the minima of the rows
  \<open>n - 6\<close> to \<open>n\<close>; the column \<open>monthrollingavg\<close> is missing at the rows 0 to 28 and
  at every row \<open>n \<ge> 29\<close> it is the arithmetic mean of the minima of the rows \<open>n - 29\<close>
  to \<open>n\<close>.
\<close>

theorem plot_rolling_averages:
  "map_of (derived (snd (plot i frame))) ''weekrollingavg'' =
     Some (map (\<lambda>n. if n < 6 then None
                     else arithmetic_mean
                            (map (\<lambda>k. temperature_2m_min (rows frame ! k)) [n - 6 ..< n + 1]))
             [0 ..< length (rows frame)])
   \<and> map_of (derived (snd (plot i frame))) ''monthrollingavg'' =
     Some (map (\<lambda>n. if n < 29 then None
                     else arithmetic_mean
                            (map (\<lambda>k. temperature_2m_min (rows frame ! k)) [n - 29 ..< n + 1]))
             [0 ..< length (rows frame)])"
proof -
  have wk: "roll_mean 7 (map temperature_2m_min (rows frame)) =
      map (\<lambda>n. if n < 6 then None
                else arithmetic_mean
                       (map (\<lambda>k. temperature_2m_min (rows frame ! k)) [n - 6 ..< n + 1]))
        [0 ..< length (rows frame)]"
    unfolding roll_mean_rows[of 7, simplified]
    by (intro map_cong) (auto simp: Suc_diff_le)
  have mo: "roll_mean 30 (map temperature_2m_min (rows frame)) =
      map (\<lambda>n. if n < 29 then None
                else arithmetic_mean
                       (map (\<lambda>k. temperature_2m_min (rows frame ! k)) [n - 29 ..< n + 1]))
        [0 ..< length (rows frame)]"
    unfolding roll_mean_rows[of 30, simplified]
    by (intro map_cong) (auto simp: Suc_diff_le)
  show ?thesis
    by (simp add: plot_def Let_def setitem_def update_conv' wk mo)
qed

text \<open>
  C3. \<open>apiresponse\<close> reads the city, the date range and the unit and no other input.
  In a session reached by any sequence of input changes and renders, new inputs that
  agree with the current ones on these three (whatever the plot threshold, the plot
  options and the table range are) give the same request and the same outcome, leave
  what \<open>apiresponse\<close> keeps in place, and, once \<open>apiresponse\<close> has run, no event
  that follows the change calls the weather service.
\<close>

theorem fetch_isolation:
  assumes "s = run api frame i0 evs"
    and "input_city new = input_city (inputs_now s)"
    and "input_daterange new = input_daterange (inputs_now s)"
    and "input_tempunits new = input_tempunits (inputs_now s)"
  shows "set (fst (apiresponse api frame new)) \<subseteq> {City, Daterange, Tempunits}
       \<and> apiresponse_params frame new = apiresponse_params frame (inputs_now s)
       \<and> apiresponse api frame new = apiresponse api frame (inputs_now s)
       \<and> apiresponse_calc (set_inputs new s) = apiresponse_calc s
       \<and> fst (get_apiresponse api frame (set_inputs new s)) = fst (get_apiresponse api frame s)
       \<and> (apiresponse_calc s = None
          \<or> weather_api_calls (step api frame e (set_inputs new s)) = weather_api_calls s)"
proof -
  have agree: "reads_agree (fst (apiresponse_params frame (inputs_now s))) (inputs_now s) new"
    using assms(2-4) by (rule three_agree)
  have co: "calc_coherent api frame s" unfolding assms(1) by (rule run_coherent)
  have p: "apiresponse_params frame new = apiresponse_params frame (inputs_now s)"
    using agree by (rule apiresponse_params_agree)
  have a: "apiresponse api frame new = apiresponse api frame (inputs_now s)"
    using agree by (rule apiresponse_agree)
  have k: "set_inputs new s = s\<lparr>inputs_now := new\<rparr>"
    using co agree by (rule set_inputs_keeps)
  have g: "fst (get_apiresponse api frame (set_inputs new s)) = fst (get_apiresponse api frame s)"
    unfolding k by (cases "apiresponse_calc s") (simp_all add: get_apiresponse_def a split: prod.splits)
  have c: "apiresponse_calc s = None
          \<or> weather_api_calls (step api frame e (set_inputs new s)) = weather_api_calls s"
  proof (cases "apiresponse_calc s")
    case None
    then show ?thesis by simp
  next
    case (Some c)
    then have "apiresponse_calc (set_inputs new s) \<noteq> None" by (simp add: k)
    then show ?thesis by (simp add: step_calls_kept set_inputs_calls)
  qed
  have r: "set (fst (apiresponse api frame new)) \<subseteq> {City, Daterange, Tempunits}"
    unfolding apiresponse_reads by (rule apiresponse_params_reads)
  show ?thesis using r p a g c by (simp add: k)
qed

text \<open>
  The theorem in the example session: the first render calls the service once, and
  after the plot threshold moves from 5 to 20 the plot is drawn with the count still 1.
\<close>

theorem fetch_isolation_witness:
  "weather_api_calls (run demo_api demo_catalog demo_inputs [RenderText]) = 1
   \<and> weather_api_calls
        (step demo_api demo_catalog RenderPlot
           (set_inputs (demo_inputs\<lparr>input_plotTemp := 20\<rparr>)
              (run demo_api demo_catalog demo_inputs [RenderText]))) = 1"
proof -
  let ?s = "run demo_api demo_catalog demo_inputs [RenderText]"
  let ?new = "demo_inputs\<lparr>input_plotTemp := 20\<rparr>"
  have h1: "input_city ?new = input_city (inputs_now ?s)"
    and h2: "input_daterange ?new = input_daterange (inputs_now ?s)"
    and h3: "input_tempunits ?new = input_tempunits (inputs_now ?s)"
    by (simp_all add: demo_first_render)
  have filled: "apiresponse_calc ?s \<noteq> None" by (simp add: demo_first_render)
  have calls: "weather_api_calls ?s = 1" by (simp add: demo_first_render)
  from fetch_isolation[OF refl h1 h2 h3, where e = RenderPlot] filled calls
  show ?thesis by simp
qed

text \<open>
  C6 as stated fails: in the example session the frame \<open>filter_df()\<close> gives after a
  plot render is not the frame it gave before; it has the two new columns.
\<close>

theorem plot_render_counterexample:
  "fst (get_filter_df demo_api demo_catalog
          (snd (render_plot demo_api demo_catalog (initial_session demo_inputs))))
   \<noteq> fst (get_filter_df demo_api demo_catalog (initial_session demo_inputs))"
proof -
  have g: "fst (get_filter_df demo_api demo_catalog (initial_session demo_inputs)) =
      Inr \<lparr>rows = [\<lparr>date = 0, temperature_2m_min = Some 3\<rparr>], derived = []\<rparr>"
    by (simp add: get_filter_df_def get_apiresponse_def demo_apiresponse initial_session_def
        filter_df_def demo_response_def date_range_left_def)
  show ?thesis
    by (simp add: render_plot_kept g plot_frame)
qed

text \<open>
  C6, as the code has it. A plot render sets the columns \<open>weekrollingavg\<close> and
  \<open>monthrollingavg\<close> on the frame \<open>filter_df\<close> keeps and changes nothing else of
  it: the rows (date and minimum) that \<open>filter_df()\<close> gives are the same before and
  after, and so is the threshold table.
\<close>

theorem plot_render_frame_effect:
  "fst (get_filter_df api frame (snd (render_plot api frame s))) =
     map_sum id
       (\<lambda>d. d\<lparr>derived :=
                 AList.update ''monthrollingavg'' (roll_mean 30 (map temperature_2m_min (rows d)))
                   (AList.update ''weekrollingavg'' (roll_mean 7 (map temperature_2m_min (rows d)))
                      (derived d))\<rparr>)
       (fst (get_filter_df api frame s))
   \<and> map_sum id rows (fst (get_filter_df api frame (snd (render_plot api frame s)))) =
     map_sum id rows (fst (get_filter_df api frame s))
   \<and> fst (render_hist_table api frame (snd (render_plot api frame s))) =
     fst (render_hist_table api frame s)"
proof -
  obtain fc s1 where g: "get_filter_df api frame s = (fc, s1)"
    by (cases "get_filter_df api frame s")
  have i1: "inputs_now s1 = inputs_now s"
    using get_filter_df_inputs[of api frame s] g by simp
  have i2: "inputs_now (snd (render_plot api frame s)) = inputs_now s"
    using i1 g by (simp add: render_plot_session)
  show ?thesis
  proof (cases fc)
    case (Inl e)
    then show ?thesis
      using g by (simp add: render_plot_kept render_hist_table_def)
  next
    case (Inr d)
    have "hist_table (input_tableTemp (inputs_now s)) (snd (plot (inputs_now s) d)) =
          hist_table (input_tableTemp (inputs_now s)) d"
      by (rule hist_table_rows_only) (simp add: plot_frame)
    then show ?thesis
      using g Inr i1 i2
      by (simp add: render_plot_kept render_hist_table_def plot_frame)
  qed
qed

text \<open>
  C5 as stated fails: on the frame with no rows the table function raises nothing. For
  the range 0 to 1 it returns two rows, each with 0 days below and the proportion
  \<open>nan\<close>, the result of dividing 0 by the length 0.
\<close>

theorem hist_table_empty_counterexample:
  "hist_table (0, 1) \<lparr>rows = [], derived = []\<rparr> =
     \<lparr>Temp = [1, 0], Days_Below = [0, 0], Proportion_Below = [NaN, NaN]\<rparr>"
  by (simp add: hist_table_eq np_round_truediv_zero upto_rec1)

text \<open>
  C5, as the code has it. On a frame with no rows the table is returned with 0 days
  below and the proportion \<open>nan\<close> in every row. On a frame with rows every proportion
  is \<open>round(days below / length, 3)\<close> as numpy computes it: the two integers are
  converted to doubles and divided, the quotient is multiplied by 1000, rounded to the
  nearest integer and divided by 1000, every result being the nearest double.
\<close>

theorem hist_table_division:
  "hist_table (low, high) \<lparr>rows = [], derived = cols\<rparr> =
     \<lparr>Temp = rev [low..high],
      Days_Below = map (\<lambda>t. 0) (rev [low..high]),
      Proportion_Below = map (\<lambda>t. NaN) (rev [low..high])\<rparr>
   \<and> Proportion_Below (hist_table (low, high) histdf) =
     (if rows histdf = [] then map (\<lambda>t. NaN) (rev [low..high])
      else map (\<lambda>d. Num (fl (of_int (rint (fl (fl (fl (real d)
                                                     / fl (real (length (rows histdf))))
                                                 * 1000)))
                            / 1000)))
             (Days_Below (hist_table (low, high) histdf)))"
proof (cases "rows histdf = []")
  case True
  then show ?thesis by (simp add: hist_table_eq np_round_truediv_zero)
next
  case False
  then have "0 < length (rows histdf)" by simp
  from np_round_truediv[OF this] False show ?thesis
    by (simp add: hist_table_eq np_round_truediv_zero comp_def thousandths_def)
qed

text \<open>
  C9. On a frame with at least one row, the proportion of every row \<open>k\<close> of the table
  is the quotient days below / length rounded to 3 decimals in double arithmetic: it
  is the double nearest to \<open>j / 1000\<close> for an integer \<open>j\<close> with \<open>0 \<le> j \<le> 1000\<close>, it
  lies between 0 and 1, it is within \<open>2 ^ -53\<close> of \<open>j / 1000\<close>, and on a frame of
  fewer than \<open>2 ^ 40\<close> rows \<open>j / 1000\<close> is within 0.0005 of the exact quotient. On a
  tie the doubles decide which neighbour is taken.
\<close>

theorem proportion_below_rounded:
  assumes "rows histdf \<noteq> []"
    and "k < length (Temp (hist_table tableTemp histdf))"
  shows "Proportion_Below (hist_table tableTemp histdf) ! k =
           Num (fl (of_int (thousandths (Days_Below (hist_table tableTemp histdf) ! k)
                              (length (rows histdf))) / 1000))
         \<and> 0 \<le> thousandths (Days_Below (hist_table tableTemp histdf) ! k) (length (rows histdf))
         \<and> thousandths (Days_Below (hist_table tableTemp histdf) ! k) (length (rows histdf)) \<le> 1000
         \<and> 0 \<le> fl (of_int (thousandths (Days_Below (hist_table tableTemp histdf) ! k)
                              (length (rows histdf))) / 1000)
         \<and> fl (of_int (thousandths (Days_Below (hist_table tableTemp histdf) ! k)
                          (length (rows histdf))) / 1000) \<le> 1
         \<and> \<bar>fl (of_int (thousandths (Days_Below (hist_table tableTemp histdf) ! k)
                           (length (rows histdf))) / 1000)
             - of_int (thousandths (Days_Below (hist_table tableTemp histdf) ! k)
                         (length (rows histdf))) / 1000\<bar> \<le> 1 / 2 ^ 53
         \<and> (length (rows histdf) < 2 ^ 40 \<longrightarrow>
              \<bar>of_int (thousandths (Days_Below (hist_table tableTemp histdf) ! k)
                          (length (rows histdf))) / 1000
               - real (Days_Below (hist_table tableTemp histdf) ! k)
                 / real (length (rows histdf))\<bar> \<le> 1 / 2000)"
proof -
  obtain low high where tt: "tableTemp = (low, high)" by (cases tableTemp)
  define n where "n = length (rows histdf)"
  define ts where "ts = rev [low..high]"
  define d where "d = length (filter (\<lambda>r. reading_lt (temperature_2m_min r) (ts ! k)) (rows histdf))"
  have npos: "0 < n" using assms(1) by (simp add: n_def)
  have k: "k < length ts" using assms(2) by (simp add: tt hist_table_eq ts_def)
  have days: "Days_Below (hist_table tableTemp histdf) ! k = d"
    using k by (simp add: tt hist_table_eq ts_def d_def)
  have pb: "Proportion_Below (hist_table tableTemp histdf) ! k = np_round (np_truediv d n) 3"
    using k by (simp add: tt hist_table_eq ts_def d_def n_def)
  have dn: "d \<le> n" by (simp add: d_def n_def)
  have v: "np_round (np_truediv d n) 3 = Num (fl (of_int (thousandths d n) / 1000))"
    using npos by (rule np_round_truediv)
  have b: "0 \<le> thousandths d n \<and> thousandths d n \<le> 1000"
    using dn npos by (rule thousandths_bounds)
  then have u: "0 \<le> fl (of_int (thousandths d n) / 1000)
         \<and> fl (of_int (thousandths d n) / 1000) \<le> 1
         \<and> \<bar>fl (of_int (thousandths d n) / 1000) - of_int (thousandths d n) / 1000\<bar> \<le> 1 / 2 ^ 53"
    by (intro fl_thousandth) simp_all
  have near: "n < 2 ^ 40 \<longrightarrow> \<bar>of_int (thousandths d n) / 1000 - real d / real n\<bar> \<le> 1 / 2000"
    using thousandths_near[OF dn npos] by blast
  from pb v b u near show ?thesis
    unfolding days n_def[symmetric] by (simp only:) 
qed

text \<open>
  The theorem at a tie: 203 days below of 400. The quotient 0.5075 is not a double,
  the double nearest to it lies below, and the proportion is the double of 0.507.
\<close>

theorem proportion_below_rounded_witness:
  "rows \<lparr>rows = replicate 203 \<lparr>date = 0, temperature_2m_min = Some (- 1)\<rparr>
                @ replicate 197 \<lparr>date = 0, temperature_2m_min = Some 1\<rparr>,
         derived = []\<rparr> \<noteq> []
   \<and> Days_Below (hist_table (0, 0)
        \<lparr>rows = replicate 203 \<lparr>date = 0, temperature_2m_min = Some (- 1)\<rparr>
                @ replicate 197 \<lparr>date = 0, temperature_2m_min = Some 1\<rparr>,
         derived = []\<rparr>) ! 0 = 203
   \<and> thousandths 203 400 = 507
   \<and> Proportion_Below (hist_table (0, 0)
        \<lparr>rows = replicate 203 \<lparr>date = 0, temperature_2m_min = Some (- 1)\<rparr>
                @ replicate 197 \<lparr>date = 0, temperature_2m_min = Some 1\<rparr>,
         derived = []\<rparr>) ! 0
      = Num (4566650022153683 / 2 ^ 53)
   \<and> \<bar>(507 :: real) / 1000 - 203 / 400\<bar> \<le> 1 / 2000"
proof -
  let ?F = "\<lparr>rows = replicate 203 \<lparr>date = 0, temperature_2m_min = Some (- 1)\<rparr>
                @ replicate 197 \<lparr>date = 0, temperature_2m_min = Some 1\<rparr>,
         derived = []\<rparr>"
  have h1: "rows ?F \<noteq> []" by simp
  have h2: "0 < length (Temp (hist_table (0, 0) ?F))" by (simp add: hist_table_eq)
  have n: "length (rows ?F) = 400" by simp
  have d: "Days_Below (hist_table (0, 0) ?F) ! 0 = 203"
    by (simp add: hist_table_eq reading_lt_def)
  from proportion_below_rounded[OF h1 h2]
  have "Proportion_Below (hist_table (0, 0) ?F) ! 0 = Num (fl (of_int (thousandths 203 400) / 1000))"
    unfolding d n by simp
  then have p: "Proportion_Below (hist_table (0, 0) ?F) ! 0 = Num (4566650022153683 / 2 ^ 53)"
    by (simp only: thousandths_203_400 fl_507 of_int_numeral)
  show ?thesis
    using h1 d p thousandths_203_400 by simp
qed

text \<open>
  C8. In every session reached by input changes and renders, the coordinate text and
  the map come from the first response the service returns for the request built from
  the current inputs: the text holds the latitude and the longitude of that response,
  rounded to 4 decimals, the map is centred and marked at them. The request is the
  argument of the service and nothing more: its latitude and longitude occur in
  neither output. When the request cannot be built or the service fails, both outputs
  are that exception.
\<close>

theorem outputs_use_resolved_coordinate:
  "(fst (render_text api frame (run api frame i0 evs)),
    fst (render_map api frame (run api frame i0 evs))) =
     (case snd (apiresponse_params frame (inputs_now (run api frame i0 evs))) of
        Inl e \<Rightarrow> (Inl e, Inl e)
      | Inr p \<Rightarrow>
          (case api url p of
             Inl e \<Rightarrow> (Inl e, Inl e)
           | Inr responses \<Rightarrow>
               (case responses of
                  [] \<Rightarrow> (Inl IndexError, Inl IndexError)
                | r # others \<Rightarrow>
                    (Inr [Number (py_round (Latitude r) 4), Literal (degree @ ''N, ''),
                          Number (py_round (Longitude r) 4), Literal (degree @ ''E'')],
                     Inr \<lparr>center = (Latitude r, Longitude r), zoom = 12,
                          markers = [(Latitude r, Longitude r)]\<rparr>))))"
proof -
  let ?s = "run api frame i0 evs"
  have o: "fst (get_apiresponse api frame ?s) = snd (snd (apiresponse api frame (inputs_now ?s)))"
    using run_coherent by (rule get_apiresponse_outcome)
  obtain out s1 where g: "get_apiresponse api frame ?s = (out, s1)"
    by (cases "get_apiresponse api frame ?s")
  with o have out: "out = snd (snd (apiresponse api frame (inputs_now ?s)))" by simp
  show ?thesis
    unfolding render_text_def render_map_def g
    by (simp add: out apiresponse_def first_item_def text_out_def map_out_def Let_def
        split: prod.splits sum.splits list.splits)
qed

text \<open>
  The theorem in the example session: the request carries the catalog's coordinate
  (40.1106, -88.2073), the text and the map show the resolved one (40.125, -88.25).
\<close>

theorem outputs_use_resolved_coordinate_witness:
  "snd (apiresponse_params demo_catalog (inputs_now (run demo_api demo_catalog demo_inputs []))) =
     Inr \<lparr>latitude = 401106 / 10000, longitude = - 882073 / 10000,
          start_date = 18993, end_date = 18994, daily = ''temperature_2m_min'',
          temperature_unit = ''fahrenheit''\<rparr>
   \<and> fst (render_text demo_api demo_catalog (run demo_api demo_catalog demo_inputs [])) =
       Inr [Number (321 / 8), Literal (degree @ ''N, ''),
            Number (- 353 / 4), Literal (degree @ ''E'')]
   \<and> fst (render_map demo_api demo_catalog (run demo_api demo_catalog demo_inputs [])) =
       Inr \<lparr>center = (321 / 8, - 353 / 4), zoom = 12, markers = [(321 / 8, - 353 / 4)]\<rparr>"
proof -
  have i: "inputs_now (run demo_api demo_catalog demo_inputs []) = demo_inputs"
    by (simp add: run_def initial_session_def)
  have la: "py_round (321 / 8) 4 = 321 / 8"
  proof -
    have "rint (321 / 8 * 10 ^ 4) = 401250" using rint_of_int[of 401250] by simp
    then have "py_round (321 / 8) 4 = fl (321 / 8)" by (simp add: py_round_def)
    also have "\<dots> = 321 / 8"
      by (subst fl_eval[where e = 5]) (simp_all add: rint_def)
    finally show ?thesis .
  qed
  have lo: "py_round (- (353 / 4)) 4 = - (353 / 4)"
  proof -
    have "rint (- (353 / 4) * 10 ^ 4) = - 882500" using rint_of_int[of "- 882500"] by simp
    then have "py_round (- (353 / 4)) 4 = fl (- (353 / 4))" by (simp add: py_round_def)
    also have "\<dots> = - (353 / 4)"
      by (subst fl_eval_neg[where e = 6]) (simp_all add: rint_def)
    finally show ?thesis .
  qed
  have p: "snd (apiresponse_params demo_catalog demo_inputs) =
     Inr \<lparr>latitude = 401106 / 10000, longitude = - 882073 / 10000,
          start_date = 18993, end_date = 18994, daily = ''temperature_2m_min'',
          temperature_unit = ''fahrenheit''\<rparr>"
    by (simp add: apiresponse_params_def first_item_def demo_catalog_def demo_inputs_def)
  from outputs_use_resolved_coordinate[of demo_api demo_catalog demo_inputs "[]"]
  show ?thesis
    by (simp add: i p la lo demo_api_def demo_response_def)
qed

end
